theory Spec2Isabelle
  imports Main "HOL-Library.Multiset"
begin

section \<open>Python values, exceptions and loops\<close>

text \<open>
  The three scripts of the repository (\<^verbatim>\<open>combined_pre_post_patching.py\<close>,
  \<^verbatim>\<open>pre_patch_notification.py\<close>, \<^verbatim>\<open>post_patch_notification.py\<close>) share the
  functions modelled here word for word; line numbers refer to the combined script.

  Conventions of the embedding.
  \<^item> An AWS response dictionary is a record. A key the code reads with \<^verbatim>\<open>d["k"]\<close> is a
    field of the record; a key it reads with \<^verbatim>\<open>d.get("k")\<close> is an optional field; a key it
    reads with \<^verbatim>\<open>d.get("k", [])\<close> is a list field (the empty list when the key is absent).
  \<^item> A raised exception is the \<open>Inl\<close> of a sum. Every exception of the model is a subclass of
    Python's \<^verbatim>\<open>Exception\<close>, so \<^verbatim>\<open>except Exception\<close> catches each of them.
  \<^item> A boto3 paginator is the list of its page fetches, each a page or the exception the
    fetch raises; the loop over it stops at the first raising fetch.
  \<^item> Python integers are \<open>int\<close>.
  \<^item> Of the logging calls only the records written by the \<^verbatim>\<open>except\<close> handlers
    (\<^verbatim>\<open>logger.error\<close>) are kept, as a list returned beside the result.
\<close>

datatype exn =
    ClientError | UnboundLocalError | AttributeError | TypeError | IndexError | KeyError
  | JSONDecodeError | ValueError | RecursionError

datatype log_record = LogError string

type_synonym 'a pages = "(exn + 'a) list"

text \<open>\<^verbatim>\<open>for x in xs: body\<close> where the body may raise.\<close>

fun for_each :: "('a \<Rightarrow> 's \<Rightarrow> exn + 's) \<Rightarrow> 'a list \<Rightarrow> 's \<Rightarrow> exn + 's" where
  "for_each body [] s = Inr s"
| "for_each body (x # xs) s =
     (case body x s of Inl e \<Rightarrow> Inl e | Inr s' \<Rightarrow> for_each body xs s')"

text \<open>\<^verbatim>\<open>for page in paginator.paginate(...): body\<close>.\<close>

definition paginate_each :: "('p \<Rightarrow> 's \<Rightarrow> exn + 's) \<Rightarrow> 'p pages \<Rightarrow> 's \<Rightarrow> exn + 's" where
  "paginate_each body pgs =
     for_each (\<lambda>fetch s. case fetch of Inl e \<Rightarrow> Inl e | Inr page \<Rightarrow> body page s) pgs"

text \<open>\<^verbatim>\<open>s.startswith(p)\<close>.\<close>

definition startswith :: "string \<Rightarrow> string \<Rightarrow> bool" where
  "startswith s p \<longleftrightarrow> take (length p) s = p"

text \<open>\<^verbatim>\<open>s.split(sep)\<close> for a non-empty separator: the pieces between the occurrences of
  \<open>sep\<close>, found from the left. \<open>acc\<close> is the current piece, reversed.\<close>

function py_split :: "string \<Rightarrow> string \<Rightarrow> string \<Rightarrow> string list" where
  "py_split sep acc [] = [rev acc]"
| "py_split sep acc (c # cs) =
     (if sep \<noteq> [] \<and> startswith (c # cs) sep
      then rev acc # py_split sep [] (drop (length sep) (c # cs))
      else py_split sep (c # acc) cs)"
  by pat_completeness auto
termination
  by (relation "measure (\<lambda>(sep, acc, s). length s)") auto

section \<open>Target Resolver: \<^verbatim>\<open>get_target_count\<close>\<close>

record rule =
  Key :: string
  Values :: "string list"

record mw_target =
  Targets :: "rule list"

record tag_filter =
  filter_Name :: string
  filter_Values :: "string list"

record resource =
  ResourceArn :: string
  ResourceType :: string

text \<open>A page of \<^verbatim>\<open>describe_instances\<close>: \<^verbatim>\<open>page["Reservations"]\<close>, each reservation its
  \<^verbatim>\<open>["Instances"]\<close>, each instance its \<^verbatim>\<open>["InstanceId"]\<close>.\<close>

type_synonym ec2_page = "string list list"

text \<open>A page of \<^verbatim>\<open>list_group_resources\<close>: \<^verbatim>\<open>page["ResourceIdentifiers"]\<close>.\<close>

type_synonym group_page = "resource list"

text \<open>The clients \<^verbatim>\<open>ssm\<close>, \<^verbatim>\<open>ec2\<close> and \<^verbatim>\<open>resourcegroups\<close> of one session, as far as
  \<^verbatim>\<open>get_target_count\<close> calls them.\<close>

record inventory =
  describe_maintenance_window_targets :: "string \<Rightarrow> exn + mw_target list"
  describe_instances :: "tag_filter list \<Rightarrow> ec2_page pages"
  list_group_resources :: "string \<Rightarrow> group_page pages"

text \<open>The locals of \<^verbatim>\<open>get_target_count\<close> inside the loop over the rules: \<^verbatim>\<open>total\<close> (written \<open>tot\<close>),
  \<^verbatim>\<open>tag_filters\<close> and \<^verbatim>\<open>group_name\<close>. The last one is bound only by the
  \<^verbatim>\<open>for group_name in values\<close> of line 169; \<open>None\<close> is the unbound local.\<close>

type_synonym rule_state = "int \<times> tag_filter list \<times> string option"

text \<open>Lines 175-182: one resource group.\<close>

definition count_instances :: "group_page \<Rightarrow> int \<Rightarrow> int" where
  "count_instances page cnt =
     fold (\<lambda>r c. if ResourceType r = ''AWS::EC2::Instance'' then c + 1 else c) page cnt"

definition group_step :: "inventory \<Rightarrow> string \<Rightarrow> rule_state \<Rightarrow> exn + rule_state" where
  "group_step aws g st =
     (case st of (tot, tag_filters, _) \<Rightarrow>
        (case paginate_each (\<lambda>page cnt. Inr (count_instances page cnt))
                (list_group_resources aws g) 0 of
           Inl e \<Rightarrow> Inl e
         | Inr cnt \<Rightarrow> Inr (tot + cnt, tag_filters, Some g)))"

text \<open>Lines 149-186: one rule. Line 168 formats \<^verbatim>\<open>group_name\<close> into a log message before
  the loop of line 169 binds it; reading the unbound local raises
  \<^verbatim>\<open>UnboundLocalError\<close>.\<close>

definition rule_step :: "inventory \<Rightarrow> rule \<Rightarrow> rule_state \<Rightarrow> exn + rule_state" where
  "rule_step aws r st =
     (case st of (tot, tag_filters, group_name) \<Rightarrow>
        if Key r = ''InstanceIds'' then
          Inr (tot + int (length (Values r)), tag_filters, group_name)
        else if startswith (Key r) ''tag:'' then
          (case py_split ''tag:'' [] (Key r) of
             _ # tag_key # _ \<Rightarrow>
               Inr (tot,
                    tag_filters @ [\<lparr>filter_Name = ''tag:'' @ tag_key, filter_Values = Values r\<rparr>],
                    group_name)
           | _ \<Rightarrow> Inl IndexError)
        else if Key r = ''resource-groups:Name'' then
          (case group_name of
             None \<Rightarrow> Inl UnboundLocalError
           | Some _ \<Rightarrow> for_each (group_step aws) (Values r) st)
        else Inr st)"

text \<open>Lines 189-198: the instance lookup of one MW target, collecting a set of ids.\<close>

definition add_page :: "ec2_page \<Rightarrow> string set \<Rightarrow> string set" where
  "add_page page instance_ids = fold (\<lambda>reservation ids. fold insert reservation ids) page instance_ids"

definition resolve_tags :: "inventory \<Rightarrow> tag_filter list \<Rightarrow> exn + string set" where
  "resolve_tags aws tag_filters =
     paginate_each (\<lambda>page ids. Inr (add_page page ids)) (describe_instances aws tag_filters) {}"

text \<open>Lines 144-198: one MW target. \<^verbatim>\<open>tag_filters\<close> starts empty for each target;
  \<^verbatim>\<open>total\<close> (written \<open>tot\<close>) and \<^verbatim>\<open>group_name\<close> live on.\<close>

definition mw_target_step :: "inventory \<Rightarrow> mw_target \<Rightarrow> int \<times> string option \<Rightarrow> exn + int \<times> string option" where
  "mw_target_step aws t st =
     (case st of (tot, group_name) \<Rightarrow>
        (case for_each (rule_step aws) (Targets t) (tot, [], group_name) of
           Inl e \<Rightarrow> Inl e
         | Inr (tot', tag_filters, group_name') \<Rightarrow>
             if tag_filters \<noteq> [] then
               (case resolve_tags aws tag_filters of
                  Inl e \<Rightarrow> Inl e
                | Inr instance_ids \<Rightarrow> Inr (tot' + int (card instance_ids), group_name'))
             else Inr (tot', group_name')))"

text \<open>Lines 138-202: the body of the \<^verbatim>\<open>try\<close>.\<close>

definition get_target_count_try :: "inventory \<Rightarrow> string \<Rightarrow> exn + int" where
  "get_target_count_try aws window_id =
     (case describe_maintenance_window_targets aws window_id of
        Inl e \<Rightarrow> Inl e
      | Inr targets \<Rightarrow>
          (case for_each (mw_target_step aws) targets (0, None) of
             Inl e \<Rightarrow> Inl e
           | Inr (tot, _) \<Rightarrow> Inr tot))"

text \<open>Lines 134-209: the handler logs and returns 0.\<close>

definition get_target_count :: "inventory \<Rightarrow> string \<Rightarrow> int \<times> log_record list" where
  "get_target_count aws window_id =
     (case get_target_count_try aws window_id of
        Inr tot \<Rightarrow> (tot, [])
      | Inl e \<Rightarrow> (0, [LogError (''Failed resolving target count for MW '' @ window_id)]))"


subsection \<open>What the loops of \<^verbatim>\<open>get_target_count\<close> compute\<close>

text \<open>The three rule kinds of lines 154, 159 and 167, and the filter that line 161 builds
  from a tag rule.\<close>

definition is_instance_rule :: "rule \<Rightarrow> bool" where
  "is_instance_rule r \<longleftrightarrow> Key r = ''InstanceIds''"

definition is_tag_rule :: "rule \<Rightarrow> bool" where
  "is_tag_rule r \<longleftrightarrow> startswith (Key r) ''tag:''"

definition is_group_rule :: "rule \<Rightarrow> bool" where
  "is_group_rule r \<longleftrightarrow> Key r = ''resource-groups:Name''"

definition has_group_rule :: "mw_target \<Rightarrow> bool" where
  "has_group_rule t \<longleftrightarrow> list_ex is_group_rule (Targets t)"

definition tag_filter_of :: "rule \<Rightarrow> tag_filter" where
  "tag_filter_of r =
     \<lparr>filter_Name = ''tag:'' @ hd (tl (py_split ''tag:'' [] (Key r))), filter_Values = Values r\<rparr>"

definition tag_filters_of :: "rule list \<Rightarrow> tag_filter list" where
  "tag_filters_of rules = map tag_filter_of (filter is_tag_rule rules)"

text \<open>The sum of \<^verbatim>\<open>len(values)\<close> over the instance-id rules of a rule list.\<close>

definition instance_id_total :: "rule list \<Rightarrow> int" where
  "instance_id_total rules = (\<Sum>r\<leftarrow>filter is_instance_rule rules. int (length (Values r)))"

text \<open>All the fetches of a paginator in order: the pages, or the first exception.\<close>

fun collect :: "(exn + 'a) list \<Rightarrow> exn + 'a list" where
  "collect [] = Inr []"
| "collect (Inl e # _) = Inl e"
| "collect (Inr p # pgs) = (case collect pgs of Inl e \<Rightarrow> Inl e | Inr ps \<Rightarrow> Inr (p # ps))"

definition pages_of :: "'a pages \<Rightarrow> 'a list" where
  "pages_of pgs = map projr (filter (\<lambda>f. \<not> isl f) pgs)"

definition page_ids :: "ec2_page list \<Rightarrow> string set" where
  "page_ids ps = set (concat (concat ps))"

text \<open>What one MW target adds to \<^verbatim>\<open>total\<close>, or the exception it raises.\<close>

definition target_result :: "inventory \<Rightarrow> mw_target \<Rightarrow> exn + int" where
  "target_result aws t =
     (if has_group_rule t then Inl UnboundLocalError
      else if tag_filters_of (Targets t) = [] then Inr (instance_id_total (Targets t))
      else (case collect (describe_instances aws (tag_filters_of (Targets t))) of
              Inl e \<Rightarrow> Inl e
            | Inr ps \<Rightarrow> Inr (instance_id_total (Targets t) + int (card (page_ids ps)))))"

text \<open>The number of distinct instance ids that the one lookup with all the tag filters of
  an MW target returns, and the sub-total of an MW target without resource-group rule.\<close>

definition tag_instance_count :: "inventory \<Rightarrow> mw_target \<Rightarrow> int" where
  "tag_instance_count aws t =
     (if tag_filters_of (Targets t) = [] then 0
      else int (card (page_ids (pages_of (describe_instances aws (tag_filters_of (Targets t)))))))"

definition mw_target_subtotal :: "inventory \<Rightarrow> mw_target \<Rightarrow> int" where
  "mw_target_subtotal aws t = instance_id_total (Targets t) + tag_instance_count aws t"

text \<open>The specification's reading of the target count, in its own words: per MW target the
  cardinality of the union of the instance identifiers resolved from all its rules (the
  listed instance ids, the instances matching the tag filters, the instance-typed members
  of the named resource groups), summed over the MW targets.\<close>

definition spec_union_ids :: "inventory \<Rightarrow> mw_target \<Rightarrow> string set" where
  "spec_union_ids aws t =
     set (concat (map Values (filter is_instance_rule (Targets t))))
     \<union> (if tag_filters_of (Targets t) = [] then {}
        else page_ids (pages_of (describe_instances aws (tag_filters_of (Targets t)))))
     \<union> set (map ResourceArn
            (filter (\<lambda>r. ResourceType r = ''AWS::EC2::Instance'')
               (concat (concat (map (\<lambda>g. pages_of (list_group_resources aws g))
                  (concat (map Values (filter is_group_rule (Targets t)))))))))"

definition spec_union_total :: "inventory \<Rightarrow> mw_target list \<Rightarrow> int" where
  "spec_union_total aws ts = (\<Sum>t\<leftarrow>ts. int (card (spec_union_ids aws t)))"

subsection \<open>Concrete windows\<close>

text \<open>One MW target that lists instance \<open>i-0a1\<close> and also selects it by tag.\<close>

definition overlap_targets :: "mw_target list" where
  "overlap_targets =
     [\<lparr>Targets = [\<lparr>Key = ''InstanceIds'', Values = [''i-0a1'']\<rparr>,
                  \<lparr>Key = ''tag:Env'', Values = [''prod'']\<rparr>]\<rparr>]"

definition overlap_aws :: inventory where
  "overlap_aws =
     \<lparr>describe_maintenance_window_targets = (\<lambda>_. Inr overlap_targets),
      describe_instances = (\<lambda>_. [Inr [[''i-0a1'']]]),
      list_group_resources = (\<lambda>_. [])\<rparr>"

text \<open>Two MW targets that both list \<open>i-0a1\<close>; the second also has two tag rules whose
  lookup returns \<open>i-0b2\<close> on two pages and \<open>i-0c3\<close>.\<close>

definition two_targets :: "mw_target list" where
  "two_targets =
     [\<lparr>Targets = [\<lparr>Key = ''InstanceIds'', Values = [''i-0a1'']\<rparr>]\<rparr>,
      \<lparr>Targets = [\<lparr>Key = ''tag:Env'', Values = [''prod'']\<rparr>,
                  \<lparr>Key = ''InstanceIds'', Values = [''i-0a1'']\<rparr>,
                  \<lparr>Key = ''tag:Role'', Values = [''web'']\<rparr>,
                  \<lparr>Key = ''WindowTargetIds'', Values = [''e32eecb2'']\<rparr>]\<rparr>]"

definition two_targets_permuted :: "mw_target list" where
  "two_targets_permuted =
     [\<lparr>Targets = [\<lparr>Key = ''InstanceIds'', Values = [''i-0a1'']\<rparr>]\<rparr>,
      \<lparr>Targets = [\<lparr>Key = ''WindowTargetIds'', Values = [''e32eecb2'']\<rparr>,
                  \<lparr>Key = ''tag:Role'', Values = [''web'']\<rparr>,
                  \<lparr>Key = ''InstanceIds'', Values = [''i-0a1'']\<rparr>,
                  \<lparr>Key = ''tag:Env'', Values = [''prod'']\<rparr>]\<rparr>]"

definition two_aws :: inventory where
  "two_aws =
     \<lparr>describe_maintenance_window_targets = (\<lambda>_. Inr two_targets),
      describe_instances = (\<lambda>fs.
         if ''tag:Env'' \<in> filter_Name ` set fs
         then [Inr [[''i-0b2''], [''i-0c3'']], Inr [[''i-0b2'']]]
         else [Inr [[''i-0d4'']]]),
      list_group_resources = (\<lambda>_. [])\<rparr>"

text \<open>A window whose MW target has a tag rule and whose instance lookup fails on the
  second page, and a window whose target lookup fails.\<close>

definition failing_targets :: "mw_target list" where
  "failing_targets =
     [\<lparr>Targets = [\<lparr>Key = ''InstanceIds'', Values = [''i-0a1'', ''i-0b2'']\<rparr>]\<rparr>,
      \<lparr>Targets = [\<lparr>Key = ''tag:Env'', Values = [''prod'']\<rparr>]\<rparr>]"

definition failing_aws :: inventory where
  "failing_aws =
     \<lparr>describe_maintenance_window_targets =
        (\<lambda>w. if w = ''mw-0bad'' then Inl ClientError else Inr failing_targets),
      describe_instances = (\<lambda>_. [Inr [[''i-0c3'']], Inl ClientError]),
      list_group_resources = (\<lambda>_. [])\<rparr>"

text \<open>A window whose only rule names the resource group \<open>web-servers\<close>, which has two
  instances and a bucket as members.\<close>

definition group_targets :: "mw_target list" where
  "group_targets = [\<lparr>Targets = [\<lparr>Key = ''resource-groups:Name'', Values = [''web-servers'']\<rparr>]\<rparr>]"

definition group_aws :: inventory where
  "group_aws =
     \<lparr>describe_maintenance_window_targets = (\<lambda>_. Inr group_targets),
      describe_instances = (\<lambda>_. []),
      list_group_resources = (\<lambda>_.
        [Inr [\<lparr>ResourceArn = ''arn:aws:ec2:us-east-1:111122223333:instance/i-0a1'',
                ResourceType = ''AWS::EC2::Instance''\<rparr>,
              \<lparr>ResourceArn = ''arn:aws:s3:::patch-logs'', ResourceType = ''AWS::S3::Bucket''\<rparr>],
         Inr [\<lparr>ResourceArn = ''arn:aws:ec2:us-east-1:111122223333:instance/i-0b2'',
                ResourceType = ''AWS::EC2::Instance''\<rparr>]])\<rparr>"

section \<open>Execution Status Resolver: \<^verbatim>\<open>get_patch_status_counts\<close>\<close>

text \<open>The value \<^verbatim>\<open>json.loads\<close> returns. A number is one constructor: integers and floats
  alike have no \<^verbatim>\<open>get\<close> and are no containers. The entries of \<open>JObj\<close> are the items of
  the dictionary, one per key.\<close>

datatype json =
    JNull
  | JBool bool
  | JNum int
  | JStr string
  | JArr "json list"
  | JObj "(string \<times> json) list"

text \<open>\<^verbatim>\<open>json.loads\<close> itself is a parameter of the model: it returns the parsed
  value or raises. \<open>JSONDecodeError\<close> is \<^verbatim>\<open>json.JSONDecodeError\<close>, raised for a text
  that is not JSON; \<open>ValueError\<close> is a \<^verbatim>\<open>ValueError\<close> that is no
  \<^verbatim>\<open>JSONDecodeError\<close> (an integer literal beyond the digit limit of the interpreter),
  \<open>RecursionError\<close> the failure on a text nested too deeply.\<close>

type_synonym json_loads = "string \<Rightarrow> exn + json"

text \<open>\<^verbatim>\<open>d.get(k, default)\<close>; only a dictionary has the method.\<close>

definition py_get :: "json \<Rightarrow> string \<Rightarrow> json \<Rightarrow> exn + json" where
  "py_get d k dflt =
     (case d of
        JObj items \<Rightarrow> Inr (case map_of items k of None \<Rightarrow> dflt | Some v \<Rightarrow> v)
      | _ \<Rightarrow> Inl AttributeError)"

text \<open>\<^verbatim>\<open>p in s\<close> for two strings.\<close>

fun contains_str :: "string \<Rightarrow> string \<Rightarrow> bool" where
  "contains_str p [] \<longleftrightarrow> p = []"
| "contains_str p (c # cs) \<longleftrightarrow> startswith (c # cs) p \<or> contains_str p cs"

text \<open>\<^verbatim>\<open>"Install" in operation\<close>: membership in a list, substring of a string, key of a
  dictionary; \<^verbatim>\<open>TypeError\<close> for a value that is no container.\<close>

definition install_in :: "json \<Rightarrow> exn + bool" where
  "install_in operation =
     (case operation of
        JArr xs \<Rightarrow> Inr (JStr ''Install'' \<in> set xs)
      | JStr s \<Rightarrow> Inr (contains_str ''Install'' s)
      | JObj items \<Rightarrow> Inr (''Install'' \<in> fst ` set items)
      | _ \<Rightarrow> Inl TypeError)"

record execution =
  WindowExecutionId :: string
  StartTime :: int

record task =
  TaskArn :: "string option"
  TaskExecutionId :: "string option"

record invocation =
  Parameters :: "string option"
  ExecutionId :: "string option"

record command_invocation =
  InstanceId :: "string option"
  Status :: "string option"

text \<open>The \<^verbatim>\<open>ssm\<close> client of one session, as far as \<^verbatim>\<open>get_patch_status_counts\<close> calls
  it. The second argument of the execution lookup is \<^verbatim>\<open>MaxResults\<close>.\<close>

record ssm_client =
  describe_maintenance_window_executions :: "string \<Rightarrow> nat \<Rightarrow> exn + execution list"
  describe_maintenance_window_execution_tasks :: "string \<Rightarrow> exn + task list"
  describe_maintenance_window_execution_task_invocations ::
    "string \<Rightarrow> string option \<Rightarrow> invocation list pages"
  list_command_invocations :: "string \<Rightarrow> command_invocation list pages"

text \<open>The two counters \<^verbatim>\<open>success\<close> and \<^verbatim>\<open>failure\<close>.\<close>

type_synonym counters = "int \<times> int"

text \<open>Lines 497-512: one per-instance command result.\<close>

definition tally_status :: "command_invocation \<Rightarrow> counters \<Rightarrow> counters" where
  "tally_status cmd_inv sf =
     (case sf of (success, failure) \<Rightarrow>
        if Status cmd_inv = Some ''Success'' then (success + 1, failure)
        else if (case Status cmd_inv of
                   None \<Rightarrow> False
                 | Some inst_status \<Rightarrow>
                     inst_status \<in> set [''Failed'', ''TimedOut'', ''Cancelled'', ''ExecutionTimedOut''])
        then (success, failure + 1)
        else (success, failure))"

text \<open>Lines 445-460: the operation list of one invocation. The handler of line 456 catches
  \<^verbatim>\<open>json.JSONDecodeError\<close> and nothing else.\<close>

definition get_operation :: "json_loads \<Rightarrow> invocation \<Rightarrow> exn + json" where
  "get_operation loads ivc =
     (let raw_params = (case Parameters ivc of None \<Rightarrow> [] | Some s \<Rightarrow> s) in
      if raw_params \<noteq> [] then
        (case loads raw_params of
           Inl e \<Rightarrow> if e = JSONDecodeError then Inr (JArr []) else Inl e
         | Inr parsed \<Rightarrow>
             (case py_get parsed ''parameters'' (JObj []) of
                Inl e \<Rightarrow> Inl e
              | Inr ps \<Rightarrow> py_get ps ''Operation'' (JArr [])))
      else Inr (JArr []))"

text \<open>Lines 444-512: one task invocation.\<close>

definition invocation_step ::
    "json_loads \<Rightarrow> ssm_client \<Rightarrow> invocation \<Rightarrow> counters \<Rightarrow> exn + counters" where
  "invocation_step loads ssm ivc sf =
     (case get_operation loads ivc of
        Inl e \<Rightarrow> Inl e
      | Inr operation \<Rightarrow>
          (case install_in operation of
             Inl e \<Rightarrow> Inl e
           | Inr installs \<Rightarrow>
               if \<not> installs then Inr sf
               else
                 (case ExecutionId ivc of
                    None \<Rightarrow> Inr sf
                  | Some command_id \<Rightarrow>
                      if command_id = [] then Inr sf
                      else paginate_each (\<lambda>cmd_page sf'. Inr (fold tally_status cmd_page sf'))
                             (list_command_invocations ssm command_id) sf)))"

text \<open>Lines 414-512: one task of the execution.\<close>

definition task_step ::
    "json_loads \<Rightarrow> ssm_client \<Rightarrow> string \<Rightarrow> task \<Rightarrow> counters \<Rightarrow> exn + counters" where
  "task_step loads ssm execution_id tk sf =
     (if TaskArn tk \<noteq> Some ''AWS-RunPatchBaseline'' then Inr sf
      else paginate_each (\<lambda>invocations sf'. for_each (invocation_step loads ssm) invocations sf')
             (describe_maintenance_window_execution_task_invocations ssm execution_id
                (TaskExecutionId tk)) sf)"

text \<open>Lines 403-519: the tally of the chosen execution.\<close>

definition tally_execution :: "json_loads \<Rightarrow> ssm_client \<Rightarrow> string \<Rightarrow> exn + counters" where
  "tally_execution loads ssm execution_id =
     (case describe_maintenance_window_execution_tasks ssm execution_id of
        Inl e \<Rightarrow> Inl e
      | Inr tasks \<Rightarrow> for_each (task_step loads ssm execution_id) tasks (0, 0))"

text \<open>Lines 383-519: the body of the \<^verbatim>\<open>try\<close>. \<^verbatim>\<open>executions.sort(key=..., reverse=True)\<close>
  is a stable sort by descending start time: the stable sort by the negated key.\<close>

definition get_patch_status_counts_try ::
    "json_loads \<Rightarrow> ssm_client \<Rightarrow> string \<Rightarrow> exn + counters" where
  "get_patch_status_counts_try loads ssm window_id =
     (if \<not> startswith window_id ''mw-'' then Inr (0, 0)
      else
        (case describe_maintenance_window_executions ssm window_id 10 of
           Inl e \<Rightarrow> Inl e
         | Inr executions \<Rightarrow>
             if executions = [] then Inr (0, 0)
             else
               (case sort_key (\<lambda>x. - StartTime x) executions of
                  [] \<Rightarrow> Inl IndexError
                | latest # _ \<Rightarrow> tally_execution loads ssm (WindowExecutionId latest))))"

text \<open>Lines 378-527: the handler logs and falls off the end of the function, which
  returns \<^verbatim>\<open>None\<close>.\<close>

definition get_patch_status_counts ::
    "json_loads \<Rightarrow> ssm_client \<Rightarrow> string \<Rightarrow> counters option \<times> log_record list" where
  "get_patch_status_counts loads ssm window_id =
     (case get_patch_status_counts_try loads ssm window_id of
        Inr sf \<Rightarrow> (Some sf, [])
      | Inl e \<Rightarrow>
          (None,
           [LogError (''Unhandled exception while evaluating patch status for MaintenanceWindowId ''
              @ window_id)]))"

section \<open>Post-patch loop and session cache: \<^verbatim>\<open>post_patch_function\<close>\<close>

text \<open>A row of the pre-patch report. \<^verbatim>\<open>TargetInstanceCount\<close> is an integer when the row
  is built and a string when the row is read back from the CSV file.\<close>

record 'c patch_row =
  AccountId :: string
  Region :: string
  RoleName :: string
  MaintenanceWindowId :: string
  MaintenanceWindowName :: string
  TargetInstanceCount :: 'c

record post_patch_row = "string patch_row" +
  Success :: int
  Failure :: int

text \<open>\<^verbatim>\<open>assume_role(account_id, role_name, region)\<close>: the session, of which the loop uses
  the \<^verbatim>\<open>ssm\<close> client, or the exception of the rejected call.\<close>

type_synonym session_provider = "string \<Rightarrow> string \<Rightarrow> string \<Rightarrow> exn + ssm_client"

text \<open>The variables of the loop of lines 702-747, and the list of the calls made to
  \<^verbatim>\<open>assume_role\<close>, in order.\<close>

record post_state =
  cached_session :: "ssm_client option"
  cached_account_id :: "string option"
  cached_role_name :: "string option"
  cached_region :: "string option"
  post_patch_rows :: "post_patch_row list"
  assume_role_calls :: "(string \<times> string \<times> string) list"
  logged :: "log_record list"

definition initial_post_state :: post_state where
  "initial_post_state =
     \<lparr>cached_session = None, cached_account_id = None, cached_role_name = None,
      cached_region = None, post_patch_rows = [], assume_role_calls = [], logged = []\<rparr>"

text \<open>Lines 718-723: the session cache.\<close>

definition cache_step :: "session_provider \<Rightarrow> string patch_row \<Rightarrow> post_state \<Rightarrow> exn + post_state" where
  "cache_step assume_role row st =
     (if Option.is_none (cached_session st) \<or> Some (AccountId row) \<noteq> cached_account_id st
         \<or> Some (RoleName row) \<noteq> cached_role_name st \<or> Some (Region row) \<noteq> cached_region st
      then
        (case assume_role (AccountId row) (RoleName row) (Region row) of
           Inl e \<Rightarrow> Inl e
         | Inr session \<Rightarrow>
             Inr (st\<lparr>cached_session := Some session,
                     cached_account_id := Some (AccountId row),
                     cached_role_name := Some (RoleName row),
                     cached_region := Some (Region row),
                     assume_role_calls :=
                       assume_role_calls st @ [(AccountId row, RoleName row, Region row)]\<rparr>))
      else Inr st)"

text \<open>Lines 710-747: one row. Line 735 unpacks the result of
  \<^verbatim>\<open>get_patch_status_counts\<close> into two names; unpacking \<^verbatim>\<open>None\<close> raises
  \<^verbatim>\<open>TypeError\<close>.\<close>

definition post_row_step ::
    "json_loads \<Rightarrow> session_provider \<Rightarrow> string patch_row \<Rightarrow> post_state \<Rightarrow> exn + post_state" where
  "post_row_step loads assume_role row st =
     (case cache_step assume_role row st of
        Inl e \<Rightarrow> Inl e
      | Inr st' \<Rightarrow>
          (case cached_session st' of
             None \<Rightarrow> Inl AttributeError
           | Some session \<Rightarrow>
               (case get_patch_status_counts loads session (MaintenanceWindowId row) of
                  (None, records) \<Rightarrow> Inl TypeError
                | (Some (success, failure), records) \<Rightarrow>
                    Inr (st'\<lparr>post_patch_rows := post_patch_rows st' @
                               [patch_row.extend row \<lparr>Success = success, Failure = failure\<rparr>],
                             logged := logged st' @ records\<rparr>))))"

definition post_patch_loop ::
    "json_loads \<Rightarrow> session_provider \<Rightarrow> string patch_row list \<Rightarrow> exn + post_state" where
  "post_patch_loop loads assume_role pre_patch_rows =
     for_each (post_row_step loads assume_role) pre_patch_rows initial_post_state"

text \<open>How \<^verbatim>\<open>post_patch_function\<close> ends, from line 697 on, given the rows read from the
  report store: \<^verbatim>\<open>sys.exit\<close> with a status, or the rows handed to the delivery of lines
  767-792 (CSV upload and mail; \<open>deliver\<close> tells whether it raises). The handler of line
  794 turns every exception into \<^verbatim>\<open>sys.exit(1)\<close>.\<close>

datatype outcome = Exit nat | Delivered "post_patch_row list"

definition post_patch_function ::
    "json_loads \<Rightarrow> session_provider \<Rightarrow> (post_patch_row list \<Rightarrow> exn + unit) \<Rightarrow>
     string patch_row list \<Rightarrow> outcome" where
  "post_patch_function loads assume_role deliver pre_patch_rows =
     (if pre_patch_rows = [] then Exit 0
      else
        (case post_patch_loop loads assume_role pre_patch_rows of
           Inl e \<Rightarrow> Exit 1
         | Inr st \<Rightarrow>
             (case deliver (post_patch_rows st) of
                Inl e \<Rightarrow> Exit 1
              | Inr _ \<Rightarrow> Delivered (post_patch_rows st))))"

section \<open>Pre-patch scan: \<^verbatim>\<open>runs_today\<close> and the loop over the windows\<close>

text \<open>A \<^verbatim>\<open>datetime\<close>, in microseconds: an aware one is its instant since the epoch, a
  naive one is its wall-clock reading counted from the epoch (line 115 reads it as UTC).
  \<^verbatim>\<open>NextExecutionTime\<close> is a string or a \<^verbatim>\<open>datetime\<close>.\<close>

datatype datetime = Naive int | Aware int

datatype time_value = TimeStr string | TimeObj datetime

text \<open>\<^verbatim>\<open>datetime.fromisoformat\<close> is a parameter of the model: \<open>None\<close> is
  \<^verbatim>\<open>ValueError\<close>. So is the clock, \<^verbatim>\<open>datetime.now(timezone.utc)\<close>.\<close>

type_synonym fromisoformat = "string \<Rightarrow> datetime option"

text \<open>\<^verbatim>\<open>s.replace("Z", "+00:00")\<close>.\<close>

definition replace_Z :: "string \<Rightarrow> string" where
  "replace_Z s = concat (map (\<lambda>c. if c = CHR ''Z'' then ''+00:00'' else [c]) s)"

definition day_us :: int where
  "day_us = 86400000000"

text \<open>Lines 103-131. An exception inside is logged and answered with \<^verbatim>\<open>False\<close>.\<close>

definition runs_today :: "fromisoformat \<Rightarrow> int \<Rightarrow> time_value \<Rightarrow> bool" where
  "runs_today fromiso now_utc next_execution_time =
     (case (case next_execution_time of
              TimeStr s \<Rightarrow> fromiso (replace_Z s)
            | TimeObj d \<Rightarrow> Some d) of
        None \<Rightarrow> False
      | Some d \<Rightarrow>
          (let instant = (case d of Naive t \<Rightarrow> t | Aware t \<Rightarrow> t);
               start_of_today = now_utc - now_utc mod day_us;
               end_of_today = start_of_today + day_us
           in start_of_today \<le> instant \<and> instant < end_of_today))"

record maintenance_window =
  WindowId :: string
  Name :: "string option"
  NextExecutionTime :: "time_value option"

text \<open>\<^verbatim>\<open>mw.get("Name", "")\<close>.\<close>

definition window_name :: "maintenance_window \<Rightarrow> string" where
  "window_name mw = (case Name mw of None \<Rightarrow> [] | Some n \<Rightarrow> n)"

text \<open>The rows collected so far, the window ids \<^verbatim>\<open>get_target_count\<close> was called with, in
  order, and the error records it wrote.\<close>

record scan_state =
  output_rows :: "int patch_row list"
  target_lookups :: "string list"
  scan_logged :: "log_record list"

text \<open>The account of the enclosing loop: \<^verbatim>\<open>account_id\<close>, \<^verbatim>\<open>region\<close>,
  \<^verbatim>\<open>role_name\<close>.\<close>

type_synonym account = "string \<times> string \<times> string"

text \<open>Lines 571-600: one maintenance window. (The rows of \<^verbatim>\<open>pre_patch_notification.py\<close>
  have no \<^verbatim>\<open>RoleName\<close>; nothing else differs.)\<close>

definition window_step ::
    "fromisoformat \<Rightarrow> int \<Rightarrow> inventory \<Rightarrow> account \<Rightarrow> maintenance_window \<Rightarrow> scan_state \<Rightarrow>
     exn + scan_state" where
  "window_step fromiso now_utc aws acct mw st =
     (case acct of (account_id, region, role_name) \<Rightarrow>
        (case NextExecutionTime mw of
           None \<Rightarrow> Inr st
         | Some next_execution_time \<Rightarrow>
             if \<not> startswith (window_name mw) ''mmpatching'' then Inr st
             else if runs_today fromiso now_utc next_execution_time then
               (case get_target_count aws (WindowId mw) of
                  (target_count, records) \<Rightarrow>
                    (case Name mw of
                       None \<Rightarrow> Inl KeyError
                     | Some name \<Rightarrow>
                         Inr (st\<lparr>output_rows := output_rows st @
                                   [\<lparr>AccountId = account_id, Region = region,
                                     RoleName = role_name,
                                     MaintenanceWindowId = WindowId mw,
                                     MaintenanceWindowName = name,
                                     TargetInstanceCount = target_count\<rparr>],
                                 target_lookups := target_lookups st @ [WindowId mw],
                                 scan_logged := scan_logged st @ records\<rparr>)))
             else Inr st))"

definition scan_windows ::
    "fromisoformat \<Rightarrow> int \<Rightarrow> inventory \<Rightarrow> account \<Rightarrow> maintenance_window list \<Rightarrow> scan_state \<Rightarrow>
     exn + scan_state" where
  "scan_windows fromiso now_utc aws acct windows st =
     for_each (window_step fromiso now_utc aws acct) windows st"

text \<open>The three conditions of lines 576, 581 and 585 together, and the row of a window
  that meets them.\<close>

definition reported :: "fromisoformat \<Rightarrow> int \<Rightarrow> maintenance_window \<Rightarrow> bool" where
  "reported fromiso now_utc mw \<longleftrightarrow>
     (case NextExecutionTime mw of
        None \<Rightarrow> False
      | Some next_execution_time \<Rightarrow>
          startswith (window_name mw) ''mmpatching''
          \<and> runs_today fromiso now_utc next_execution_time)"

definition report_row :: "inventory \<Rightarrow> account \<Rightarrow> maintenance_window \<Rightarrow> int patch_row" where
  "report_row aws acct mw =
     (case acct of (account_id, region, role_name) \<Rightarrow>
        \<lparr>AccountId = account_id, Region = region, RoleName = role_name,
         MaintenanceWindowId = WindowId mw,
         MaintenanceWindowName = window_name mw,
         TargetInstanceCount = fst (get_target_count aws (WindowId mw))\<rparr>)"

section \<open>What the loops of the status resolver and of the two phases compute\<close>

text \<open>The classification of line 504 and of lines 506-511.\<close>

definition counts_as_success :: "command_invocation \<Rightarrow> bool" where
  "counts_as_success r \<longleftrightarrow> Status r = Some ''Success''"

definition counts_as_failure :: "command_invocation \<Rightarrow> bool" where
  "counts_as_failure r \<longleftrightarrow>
     Status r \<in> Some ` {''Failed'', ''TimedOut'', ''Cancelled'', ''ExecutionTimedOut''}"

text \<open>The specification's choice of the execution, in its own words: the execution with
  the maximum start time, the first such in input order.\<close>

definition latest_execution :: "execution list \<Rightarrow> execution option" where
  "latest_execution executions =
     find (\<lambda>x. list_all (\<lambda>y. StartTime y \<le> StartTime x) executions) executions"

text \<open>The account context of a row, and a state whose cache holds a session for a
  context.\<close>

definition account_context :: "string patch_row \<Rightarrow> string \<times> string \<times> string" where
  "account_context row = (AccountId row, RoleName row, Region row)"

definition caches :: "post_state \<Rightarrow> string \<times> string \<times> string \<Rightarrow> bool" where
  "caches st c \<longleftrightarrow>
     \<not> Option.is_none (cached_session st) \<and> cached_account_id st = Some (fst c)
     \<and> cached_role_name st = Some (fst (snd c)) \<and> cached_region st = Some (snd (snd c))"

text \<open>The per-instance command results that the resolver examines for a window, said
  without the counters: given that every lookup succeeds, the results, over all pages, of
  the commands of those invocations of the patch-baseline tasks of the chosen execution
  whose operation list contains \<open>Install\<close> and which name a command.\<close>

definition installs :: "json_loads \<Rightarrow> invocation \<Rightarrow> bool" where
  "installs loads ivc \<longleftrightarrow>
     (case get_operation loads ivc of
        Inl e \<Rightarrow> False
      | Inr operation \<Rightarrow> install_in operation = Inr True)"

definition command_results :: "ssm_client \<Rightarrow> invocation \<Rightarrow> command_invocation list" where
  "command_results ssm ivc =
     (case ExecutionId ivc of
        None \<Rightarrow> []
      | Some command_id \<Rightarrow>
          if command_id = [] then []
          else concat (pages_of (list_command_invocations ssm command_id)))"

definition invocation_results ::
    "json_loads \<Rightarrow> ssm_client \<Rightarrow> invocation \<Rightarrow> command_invocation list" where
  "invocation_results loads ssm ivc =
     (if installs loads ivc then command_results ssm ivc else [])"

definition task_results ::
    "json_loads \<Rightarrow> ssm_client \<Rightarrow> string \<Rightarrow> task \<Rightarrow> command_invocation list" where
  "task_results loads ssm execution_id tk =
     (if TaskArn tk = Some ''AWS-RunPatchBaseline''
      then concat (map (invocation_results loads ssm)
             (concat (pages_of (describe_maintenance_window_execution_task_invocations ssm
                execution_id (TaskExecutionId tk)))))
      else [])"

definition execution_results ::
    "json_loads \<Rightarrow> ssm_client \<Rightarrow> string \<Rightarrow> command_invocation list" where
  "execution_results loads ssm execution_id =
     (case describe_maintenance_window_execution_tasks ssm execution_id of
        Inl e \<Rightarrow> []
      | Inr tasks \<Rightarrow> concat (map (task_results loads ssm execution_id) tasks))"

definition examined_results ::
    "json_loads \<Rightarrow> ssm_client \<Rightarrow> string \<Rightarrow> command_invocation list" where
  "examined_results loads ssm window_id =
     (if startswith window_id ''mw-'' then
        (case describe_maintenance_window_executions ssm window_id 10 of
           Inl e \<Rightarrow> []
         | Inr executions \<Rightarrow>
             (case latest_execution executions of
                None \<Rightarrow> []
              | Some latest \<Rightarrow> execution_results loads ssm (WindowExecutionId latest)))
      else [])"

text \<open>A report row served by the session of its own account context: its counters are
  those \<^verbatim>\<open>get_patch_status_counts\<close> returns with the session that \<^verbatim>\<open>assume_role\<close> gives
  for the account, role and region of the row.\<close>

definition served ::
    "json_loads \<Rightarrow> session_provider \<Rightarrow> string patch_row \<Rightarrow> post_patch_row \<Rightarrow> bool" where
  "served loads assume_role row out \<longleftrightarrow>
     (case assume_role (AccountId row) (RoleName row) (Region row) of
        Inl e \<Rightarrow> False
      | Inr session \<Rightarrow>
          (case fst (get_patch_status_counts loads session (MaintenanceWindowId row)) of
             None \<Rightarrow> False
           | Some (success, failure) \<Rightarrow>
               out = patch_row.extend row \<lparr>Success = success, Failure = failure\<rparr>))"

text \<open>A cache whose session, if it holds one, is the session of the context it names.\<close>

definition cache_sound :: "session_provider \<Rightarrow> post_state \<Rightarrow> bool" where
  "cache_sound assume_role st \<longleftrightarrow>
     (case cached_session st of
        None \<Rightarrow> True
      | Some session \<Rightarrow>
          (case (cached_account_id st, cached_role_name st, cached_region st) of
             (Some a, Some r, Some g) \<Rightarrow> assume_role a r g = Inr session
           | _ \<Rightarrow> False))"

subsection \<open>A concrete fleet\<close>

definition quoted :: "string \<Rightarrow> string" where
  "quoted s = CHR 0x22 # s @ [CHR 0x22]"

definition install_payload :: string where
  "install_payload =
     ''{'' @ quoted ''parameters'' @ '': {'' @ quoted ''Operation'' @ '': [''
       @ quoted ''Install'' @ '']}}''"

definition scan_payload :: string where
  "scan_payload =
     ''{'' @ quoted ''parameters'' @ '': {'' @ quoted ''Operation'' @ '': [''
       @ quoted ''Scan'' @ '']}}''"

text \<open>A parser that knows the two payloads and rejects every other text.\<close>

definition sample_loads :: json_loads where
  "sample_loads raw =
     (if raw = install_payload
      then Inr (JObj [(''parameters'', JObj [(''Operation'', JArr [JStr ''Install''])])])
      else if raw = scan_payload
      then Inr (JObj [(''parameters'', JObj [(''Operation'', JArr [JStr ''Scan''])])])
      else Inl JSONDecodeError)"

definition sample_executions :: "execution list" where
  "sample_executions =
     [\<lparr>WindowExecutionId = ''exec-old'', StartTime = 100\<rparr>,
      \<lparr>WindowExecutionId = ''exec-new'', StartTime = 200\<rparr>,
      \<lparr>WindowExecutionId = ''exec-tie'', StartTime = 200\<rparr>]"

text \<open>Window \<open>mw-0bad\<close> fails its execution lookup, window \<open>mw-0new\<close> has no execution,
  every other window has the three executions above. The execution \<open>exec-new\<close> has a
  patch-baseline task with an Install invocation (\<open>i-1\<close> Success, \<open>i-2\<close> Failed), a Scan
  invocation (\<open>i-4\<close> Success), a second Install invocation (\<open>i-3\<close> InProgress) and an
  invocation with an unparsable payload.\<close>

definition sample_ssm :: ssm_client where
  "sample_ssm =
     \<lparr>describe_maintenance_window_executions = (\<lambda>w n.
        if w = ''mw-0bad'' then Inl ClientError
        else if w = ''mw-0new'' then Inr []
        else Inr (take n sample_executions)),
      describe_maintenance_window_execution_tasks = (\<lambda>e.
        if e = ''exec-new''
        then Inr [\<lparr>TaskArn = Some ''AWS-RunShellScript'', TaskExecutionId = Some ''task-0''\<rparr>,
                  \<lparr>TaskArn = Some ''AWS-RunPatchBaseline'', TaskExecutionId = Some ''task-1''\<rparr>]
        else Inr [\<lparr>TaskArn = Some ''AWS-RunPatchBaseline'', TaskExecutionId = Some ''task-9''\<rparr>]),
      describe_maintenance_window_execution_task_invocations = (\<lambda>e t.
        if t = Some ''task-1''
        then [Inr [\<lparr>Parameters = Some install_payload, ExecutionId = Some ''cmd-1''\<rparr>,
                   \<lparr>Parameters = Some scan_payload, ExecutionId = Some ''cmd-scan''\<rparr>],
              Inr [\<lparr>Parameters = Some install_payload, ExecutionId = Some ''cmd-2''\<rparr>,
                   \<lparr>Parameters = Some ''not json'', ExecutionId = Some ''cmd-scan''\<rparr>]]
        else [Inr [\<lparr>Parameters = Some install_payload, ExecutionId = Some ''cmd-other''\<rparr>]]),
      list_command_invocations = (\<lambda>c.
        if c = ''cmd-1''
        then [Inr [\<lparr>InstanceId = Some ''i-1'', Status = Some ''Success''\<rparr>],
              Inr [\<lparr>InstanceId = Some ''i-2'', Status = Some ''Failed''\<rparr>]]
        else if c = ''cmd-2''
        then [Inr [\<lparr>InstanceId = Some ''i-3'', Status = Some ''InProgress''\<rparr>]]
        else if c = ''cmd-scan''
        then [Inr [\<lparr>InstanceId = Some ''i-4'', Status = Some ''Success''\<rparr>]]
        else [Inr [\<lparr>InstanceId = Some ''i-5'', Status = Some ''Failed''\<rparr>,
                   \<lparr>InstanceId = Some ''i-6'', Status = Some ''TimedOut''\<rparr>]])\<rparr>"

definition sample_provider :: session_provider where
  "sample_provider account_id role_name region = Inr sample_ssm"

text \<open>A second account whose commands all end in two successes, and a provider that
  tells the two accounts apart.\<close>

definition other_ssm :: ssm_client where
  "other_ssm =
     sample_ssm\<lparr>list_command_invocations := (\<lambda>c.
        [Inr [\<lparr>InstanceId = Some ''i-7'', Status = Some ''Success''\<rparr>,
              \<lparr>InstanceId = Some ''i-8'', Status = Some ''Success''\<rparr>]])\<rparr>"

definition split_provider :: session_provider where
  "split_provider account_id role_name region =
     (if account_id = ''222222222222'' then Inr other_ssm else Inr sample_ssm)"





text \<open>A provider that rejects every call.\<close>

definition failing_provider :: session_provider where
  "failing_provider account_id role_name region = Inl ClientError"

definition sample_row :: "string \<Rightarrow> string \<Rightarrow> string patch_row" where
  "sample_row account_id window_id =
     \<lparr>AccountId = account_id, Region = ''us-east-1'', RoleName = ''PatchReader'',
      MaintenanceWindowId = window_id, MaintenanceWindowName = ''mmpatching-weekly'',
      TargetInstanceCount = ''3''\<rparr>"

text \<open>The account contexts A, A, B, A.\<close>

definition abba_rows :: "string patch_row list" where
  "abba_rows =
     [sample_row ''111111111111'' ''mw-0001'', sample_row ''111111111111'' ''mw-0new'',
      sample_row ''222222222222'' ''mw-0001'', sample_row ''111111111111'' ''mw-0002'']"

text \<open>The state of the loop when its cache holds the session of account A.\<close>

definition warm_state :: post_state where
  "warm_state =
     \<lparr>cached_session = Some sample_ssm, cached_account_id = Some ''111111111111'',
      cached_role_name = Some ''PatchReader'', cached_region = Some ''us-east-1'',
      post_patch_rows = [],
      assume_role_calls = [(''111111111111'', ''PatchReader'', ''us-east-1'')], logged = []\<rparr>"

text \<open>A row whose status lookup fails, followed by a healthy row of the same account.\<close>

definition bad_then_good_rows :: "string patch_row list" where
  "bad_then_good_rows =
     [sample_row ''111111111111'' ''mw-0bad'', sample_row ''111111111111'' ''mw-0001'']"

text \<open>The clock reads 2026-11-04 09:30 UTC. Five windows: one without next execution, one
  with a foreign name, one that runs tomorrow, one that runs today, one whose time does not
  parse.\<close>

definition sample_now :: int where
  "sample_now = 1793784600000000"

definition sample_fromiso :: fromisoformat where
  "sample_fromiso s =
     (if s = ''2026-11-04T22:00:00+00:00'' then Some (Aware 1793829600000000)
      else if s = ''2026-11-05T02:00:00+00:00'' then Some (Aware 1793844000000000)
      else None)"

definition sample_windows :: "maintenance_window list" where
  "sample_windows =
     [\<lparr>WindowId = ''mw-0a'', Name = Some ''mmpatching-idle'', NextExecutionTime = None\<rparr>,
      \<lparr>WindowId = ''mw-0b'', Name = Some ''backup-nightly'',
        NextExecutionTime = Some (TimeStr ''2026-11-04T22:00:00Z'')\<rparr>,
      \<lparr>WindowId = ''mw-0c'', Name = Some ''mmpatching-tomorrow'',
        NextExecutionTime = Some (TimeStr ''2026-11-05T02:00:00Z'')\<rparr>,
      \<lparr>WindowId = ''mw-0d'', Name = Some ''mmpatching-today'',
        NextExecutionTime = Some (TimeStr ''2026-11-04T22:00:00Z'')\<rparr>,
      \<lparr>WindowId = ''mw-0e'', Name = Some ''mmpatching-garbled'',
        NextExecutionTime = Some (TimeStr ''soon'')\<rparr>,
      \<lparr>WindowId = ''mw-0f'', Name = None,
        NextExecutionTime = Some (TimeObj (Naive 1793829600000000))\<rparr>]"

definition empty_scan :: scan_state where
  "empty_scan = \<lparr>output_rows = [], target_lookups = [], scan_logged = []\<rparr>"

definition sample_account :: account where
  "sample_account = (''111111111111'', ''us-east-1'', ''PatchReader'')"

section \<open>Properties of the Target Resolver\<close>

subsection \<open>Loops\<close>

lemma paginate_each_pure:
  "paginate_each (\<lambda>page s. Inr (f page s)) pgs s =
     (case collect pgs of Inl e \<Rightarrow> Inl e | Inr ps \<Rightarrow> Inr (fold f ps s))"
  unfolding paginate_each_def
  by (induction pgs arbitrary: s rule: collect.induct) (auto split: sum.splits)

lemma py_split_nonempty: "py_split sep acc s \<noteq> []"
  by (induction sep acc s rule: py_split.induct) auto

lemma py_split_tag:
  assumes "startswith k ''tag:''"
  shows "\<exists>t rest. py_split ''tag:'' [] k = [] # t # rest"
proof -
  from assms obtain c cs where k: "k = c # cs" by (cases k) (auto simp: startswith_def)
  obtain t rest where "py_split ''tag:'' [] (drop (length ''tag:'') (c # cs)) = t # rest"
    using py_split_nonempty by (metis list.exhaust)
  with assms k show ?thesis by simp
qed

lemma rule_step_instance:
  "is_instance_rule r \<Longrightarrow> rule_step aws r (tot, tfs, g) = Inr (tot + int (length (Values r)), tfs, g)"
  by (simp add: rule_step_def is_instance_rule_def)

lemma instance_not_tag: "is_instance_rule r \<Longrightarrow> \<not> is_tag_rule r"
  by (simp add: is_instance_rule_def is_tag_rule_def startswith_def)

lemma instance_not_group: "is_instance_rule r \<Longrightarrow> \<not> is_group_rule r"
  by (simp add: is_instance_rule_def is_group_rule_def)

lemma tag_not_group: "is_tag_rule r \<Longrightarrow> \<not> is_group_rule r"
  by (auto simp add: is_group_rule_def is_tag_rule_def startswith_def)

lemma rule_step_tag:
  assumes "is_tag_rule r"
  shows "rule_step aws r (tot, tfs, g) = Inr (tot, tfs @ [tag_filter_of r], g)"
proof -
  from assms have sw: "startswith (Key r) ''tag:''" by (simp add: is_tag_rule_def)
  then obtain t rest where sp: "py_split ''tag:'' [] (Key r) = [] # t # rest"
    using py_split_tag by blast
  from assms have ni: "Key r \<noteq> ''InstanceIds''"
    using instance_not_tag is_instance_rule_def by blast
  show ?thesis using sw ni sp by (simp add: rule_step_def tag_filter_of_def)
qed

lemma rule_step_group_unbound:
  "is_group_rule r \<Longrightarrow> rule_step aws r (tot, tfs, None) = Inl UnboundLocalError"
  by (simp add: rule_step_def is_group_rule_def startswith_def)

lemma rule_step_unsupported:
  "\<not> is_instance_rule r \<Longrightarrow> \<not> is_tag_rule r \<Longrightarrow> \<not> is_group_rule r \<Longrightarrow>
   rule_step aws r st = Inr st"
  by (cases st) (simp add: rule_step_def is_group_rule_def is_tag_rule_def is_instance_rule_def)

lemma rule_loop:
  "for_each (rule_step aws) rules (tot, tfs, None) =
     (if \<exists>r\<in>set rules. is_group_rule r then Inl UnboundLocalError
      else Inr (tot + instance_id_total rules, tfs @ tag_filters_of rules, None))"
proof (induction rules arbitrary: tot tfs)
  case Nil
  show ?case by (simp add: instance_id_total_def tag_filters_of_def)
next
  case (Cons r rules)
  consider (i) "is_instance_rule r" | (t) "is_tag_rule r" | (g) "is_group_rule r"
    | (u) "\<not> is_instance_rule r" "\<not> is_tag_rule r" "\<not> is_group_rule r" by blast
  then show ?case
  proof cases
    case i
    then show ?thesis
      using Cons.IH instance_not_tag[OF i] instance_not_group[OF i]
      by (simp add: rule_step_instance instance_id_total_def tag_filters_of_def)
  next
    case t
    then show ?thesis
      using Cons.IH instance_not_tag[of r] tag_not_group[OF t]
      by (auto simp add: rule_step_tag instance_id_total_def tag_filters_of_def)
  next
    case g
    then show ?thesis by (simp add: rule_step_group_unbound)
  next
    case u
    then show ?thesis
      using Cons.IH by (simp add: rule_step_unsupported instance_id_total_def tag_filters_of_def)
  qed
qed

lemma fold_insert_set: "fold insert xs S = S \<union> set xs"
  by (induction xs arbitrary: S) auto

lemma add_page_ids: "add_page page S = S \<union> set (concat page)"
  unfolding add_page_def
  by (induction page arbitrary: S) (auto simp: fold_insert_set)

lemma fold_add_page: "fold add_page ps S = S \<union> page_ids ps"
  unfolding page_ids_def
  by (induction ps arbitrary: S) (auto simp: add_page_ids)

lemma resolve_tags_eq:
  "resolve_tags aws tfs =
     (case collect (describe_instances aws tfs) of Inl e \<Rightarrow> Inl e | Inr ps \<Rightarrow> Inr (page_ids ps))"
  unfolding resolve_tags_def
  by (simp add: paginate_each_pure fold_add_page split: sum.splits)

lemma mw_target_step_eq:
  "mw_target_step aws t (tot, None) =
     (case target_result aws t of Inl e \<Rightarrow> Inl e | Inr n \<Rightarrow> Inr (tot + n, None))"
  by (simp add: mw_target_step_def rule_loop target_result_def has_group_rule_def
        list_ex_iff resolve_tags_eq split: sum.splits)

lemma targets_loop:
  "for_each (mw_target_step aws) ts (tot, None) =
     (case collect (map (target_result aws) ts) of
        Inl e \<Rightarrow> Inl e
      | Inr ns \<Rightarrow> Inr (tot + sum_list ns, None))"
proof (induction ts arbitrary: tot)
  case Nil
  show ?case by simp
next
  case (Cons t ts)
  show ?case
  proof (cases "target_result aws t")
    case (Inl e)
    then show ?thesis by (simp add: mw_target_step_eq)
  next
    case (Inr n)
    then show ?thesis by (simp add: mw_target_step_eq Cons.IH split: sum.splits)
  qed
qed

lemma get_target_count_try_eq:
  "get_target_count_try aws w =
     (case describe_maintenance_window_targets aws w of
        Inl e \<Rightarrow> Inl e
      | Inr ts \<Rightarrow>
          (case collect (map (target_result aws) ts) of
             Inl e \<Rightarrow> Inl e
           | Inr ns \<Rightarrow> Inr (sum_list ns)))"
  by (simp add: get_target_count_try_def targets_loop split: sum.splits)

lemma collect_Inl_mem: "Inl e \<in> set xs \<Longrightarrow> \<exists>e'. collect xs = Inl e'"
  by (induction xs rule: collect.induct) (auto split: sum.splits)

lemma collect_all_Inr: "\<forall>f\<in>set xs. \<not> isl f \<Longrightarrow> collect xs = Inr (pages_of xs)"
  by (induction xs rule: collect.induct) (auto simp: pages_of_def split: sum.splits)

lemma collect_map_Inr: "collect (map (\<lambda>x. Inr (f x)) xs) = Inr (map f xs)"
  by (induction xs) auto

lemma instance_id_total_mset:
  "instance_id_total rules =
     sum_mset (image_mset (\<lambda>r. int (length (Values r))) (filter_mset is_instance_rule (mset rules)))"
  unfolding instance_id_total_def
  by (metis mset_filter mset_map sum_mset_sum_list)

lemma tag_filters_of_mset:
  "mset (tag_filters_of rules) = image_mset tag_filter_of (filter_mset is_tag_rule (mset rules))"
  by (simp add: tag_filters_of_def)

lemma target_result_perm:
  assumes "\<forall>fs fs'. mset fs = mset fs' \<longrightarrow> describe_instances aws fs = describe_instances aws fs'"
    and "mset (Targets t) = mset (Targets t')"
  shows "target_result aws t = target_result aws t'"
proof -
  have g: "has_group_rule t = has_group_rule t'"
    using mset_eq_setD[OF assms(2)] by (simp add: has_group_rule_def list_ex_iff)
  have i: "instance_id_total (Targets t) = instance_id_total (Targets t')"
    by (simp add: instance_id_total_mset assms(2))
  have m: "mset (tag_filters_of (Targets t)) = mset (tag_filters_of (Targets t'))"
    by (simp add: tag_filters_of_mset assms(2))
  then have d: "describe_instances aws (tag_filters_of (Targets t)) =
      describe_instances aws (tag_filters_of (Targets t'))"
    using assms(1) by blast
  have e: "tag_filters_of (Targets t) = [] \<longleftrightarrow> tag_filters_of (Targets t') = []"
    using m by (metis mset_zero_iff)
  show ?thesis
    unfolding target_result_def using g i d e by (simp split: sum.splits)
qed

lemma target_result_targets_update:
  "target_result (aws\<lparr>describe_maintenance_window_targets := f\<rparr>) t = target_result aws t"
  by (simp add: target_result_def)

lemma map_target_result_perm:
  assumes "\<forall>fs fs'. mset fs = mset fs' \<longrightarrow> describe_instances aws fs = describe_instances aws fs'"
    and "list_all2 (\<lambda>t t'. mset (Targets t) = mset (Targets t')) ts ts'"
  shows "map (target_result aws) ts = map (target_result aws) ts'"
  using assms(2)
proof (induction rule: list_all2_induct)
  case Nil
  show ?case by simp
next
  case (Cons t ts t' ts')
  have "target_result aws t = target_result aws t'"
    using assms(1) Cons.hyps(1) by (rule target_result_perm)
  with Cons.IH show ?case by simp
qed

lemma target_result_lookup_fails:
  assumes "tag_filters_of (Targets t) \<noteq> []"
    and "Inl e \<in> set (describe_instances aws (tag_filters_of (Targets t)))"
  shows "\<exists>e'. target_result aws t = Inl e'"
  using collect_Inl_mem[OF assms(2)] assms(1) by (auto simp: target_result_def)

lemma get_target_count_caught:
  "get_target_count_try aws w = Inl e \<Longrightarrow>
   get_target_count aws w = (0, [LogError (''Failed resolving target count for MW '' @ w)])"
  by (simp add: get_target_count_def)

lemma group_rule_zero:
  assumes "describe_maintenance_window_targets aws w = Inr ts"
    and "t \<in> set ts" and "has_group_rule t"
  shows "get_target_count aws w = (0, [LogError (''Failed resolving target count for MW '' @ w)])"
proof -
  have "Inl UnboundLocalError \<in> set (map (target_result aws) ts)"
    using assms(2,3) by (force simp: target_result_def)
  then obtain e where "collect (map (target_result aws) ts) = Inl e"
    using collect_Inl_mem by blast
  with assms(1) have "get_target_count_try aws w = Inl e" by (simp add: get_target_count_try_eq)
  then show ?thesis by (rule get_target_count_caught)
qed


subsection \<open>Claims about \<^verbatim>\<open>get_target_count\<close>\<close>

text \<open>
  Claim C1, as the specification states it, is false: the value is not the sum over the MW
  targets of the cardinality of the union of the instance identifiers of all the rules of
  the target. For the window \<open>overlap_aws\<close>, whose single MW target lists instance
  \<open>i-0a1\<close> and also selects it by tag, \<^verbatim>\<open>get_target_count\<close> returns 2, the union has
  one element.
\<close>

theorem get_target_count_not_union_counterexample:
  "fst (get_target_count overlap_aws ''mw-0001'') = 2
   \<and> spec_union_total overlap_aws overlap_targets = 1
   \<and> fst (get_target_count overlap_aws ''mw-0001'') \<noteq> spec_union_total overlap_aws overlap_targets"
  by code_simp

text \<open>
  Claim C1, amended: for every maintenance window without resource-group rule whose
  lookups all succeed, \<^verbatim>\<open>get_target_count\<close> returns the sum, over the MW targets of the
  window, of the sub-total of the target: the sum of the lengths of the value lists of its
  instance-id rules, plus the number of distinct instance ids that the one instance lookup
  with all its tag filters returns (when it has a tag rule). Identifiers are deduplicated
  inside that one lookup only: not between rules, and not across MW targets, so an
  instance that two MW targets reach is counted twice.
\<close>

theorem get_target_count_sum_of_subtotals:
  assumes "describe_maintenance_window_targets aws w = Inr ts"
    and "\<forall>t\<in>set ts. \<not> has_group_rule t"
    and "\<forall>t\<in>set ts. tag_filters_of (Targets t) \<noteq> [] \<longrightarrow>
           (\<forall>f\<in>set (describe_instances aws (tag_filters_of (Targets t))). \<not> isl f)"
  shows "get_target_count aws w = (\<Sum>t\<leftarrow>ts. mw_target_subtotal aws t, [])"
proof -
  have "target_result aws t = Inr (mw_target_subtotal aws t)" if "t \<in> set ts" for t
    using that assms(2,3)
    by (simp add: target_result_def mw_target_subtotal_def tag_instance_count_def collect_all_Inr)
  then have "map (target_result aws) ts = map (\<lambda>t. Inr (mw_target_subtotal aws t)) ts"
    by simp
  then have "collect (map (target_result aws) ts) = Inr (map (mw_target_subtotal aws) ts)"
    by (simp only: collect_map_Inr)
  then show ?thesis
    using assms(1) by (simp add: get_target_count_def get_target_count_try_eq)
qed

theorem get_target_count_sum_of_subtotals_witness:
  "get_target_count two_aws ''mw-0003'' = (\<Sum>t\<leftarrow>two_targets. mw_target_subtotal two_aws t, [])
   \<and> (\<Sum>t\<leftarrow>two_targets. mw_target_subtotal two_aws t) = 4"
proof -
  have d: "describe_maintenance_window_targets two_aws ''mw-0003'' = Inr two_targets"
    by (simp add: two_aws_def)
  have g: "\<forall>t\<in>set two_targets. \<not> has_group_rule t"
    by code_simp
  have f: "\<forall>t\<in>set two_targets. tag_filters_of (Targets t) \<noteq> [] \<longrightarrow>
      (\<forall>f\<in>set (describe_instances two_aws (tag_filters_of (Targets t))). \<not> isl f)"
    by code_simp
  have v: "(\<Sum>t\<leftarrow>two_targets. mw_target_subtotal two_aws t) = 4"
    by code_simp
  show ?thesis
    using get_target_count_sum_of_subtotals [OF d g f] v by simp
qed

text \<open>
  Claim C2 fails on the code. Line 168 reads the local \<^verbatim>\<open>group_name\<close> before the loop of
  line 169 binds it, so the first resource-group rule raises \<^verbatim>\<open>UnboundLocalError\<close>, the
  handler of line 204 catches it and the window counts 0. The group \<open>web-servers\<close> of
  \<open>group_aws\<close> has two instance members: the loop of lines 169-182, were it reached with
  the local bound, would add 2; \<^verbatim>\<open>get_target_count\<close> returns 0.
\<close>

theorem get_target_count_resource_group_zero:
  "get_target_count group_aws ''mw-0002''
     = (0, [LogError ''Failed resolving target count for MW mw-0002''])
   \<and> for_each (group_step group_aws) [''web-servers''] (0, [], Some ''web-servers'')
     = Inr (2, [], Some ''web-servers'')"
  by code_simp

text \<open>
  Claim C5: whenever the body of the \<^verbatim>\<open>try\<close> raises, \<^verbatim>\<open>get_target_count\<close> returns 0
  and logs one error record. In particular it does so when the lookup of the targets
  raises, and when any page fetch of the instance lookup of any MW target raises, whatever
  the targets before it added to the total. The result is a value for every input: no
  exception reaches the caller.
\<close>

theorem get_target_count_failure_zero:
  "(get_target_count_try aws w = Inl e \<longrightarrow>
      get_target_count aws w = (0, [LogError (''Failed resolving target count for MW '' @ w)]))
   \<and> (describe_maintenance_window_targets aws w = Inl e \<longrightarrow>
      get_target_count aws w = (0, [LogError (''Failed resolving target count for MW '' @ w)]))
   \<and> (describe_maintenance_window_targets aws w = Inr ts \<and> t \<in> set ts
        \<and> tag_filters_of (Targets t) \<noteq> []
        \<and> Inl e \<in> set (describe_instances aws (tag_filters_of (Targets t))) \<longrightarrow>
      get_target_count aws w = (0, [LogError (''Failed resolving target count for MW '' @ w)]))"
proof (intro conjI impI)
  assume "get_target_count_try aws w = Inl e"
  then show "get_target_count aws w = (0, [LogError (''Failed resolving target count for MW '' @ w)])"
    by (rule get_target_count_caught)
next
  assume "describe_maintenance_window_targets aws w = Inl e"
  then have "get_target_count_try aws w = Inl e" by (simp add: get_target_count_try_def)
  then show "get_target_count aws w = (0, [LogError (''Failed resolving target count for MW '' @ w)])"
    by (rule get_target_count_caught)
next
  assume h: "describe_maintenance_window_targets aws w = Inr ts \<and> t \<in> set ts
        \<and> tag_filters_of (Targets t) \<noteq> []
        \<and> Inl e \<in> set (describe_instances aws (tag_filters_of (Targets t)))"
  then obtain e' where "target_result aws t = Inl e'"
    using target_result_lookup_fails by blast
  with h have "Inl e' \<in> set (map (target_result aws) ts)" by force
  then obtain e'' where "collect (map (target_result aws) ts) = Inl e''"
    using collect_Inl_mem by blast
  with h have "get_target_count_try aws w = Inl e''" by (simp add: get_target_count_try_eq)
  then show "get_target_count aws w = (0, [LogError (''Failed resolving target count for MW '' @ w)])"
    by (rule get_target_count_caught)
qed


theorem get_target_count_failure_zero_witness:
  "get_target_count failing_aws ''mw-0bad''
     = (0, [LogError ''Failed resolving target count for MW mw-0bad''])
   \<and> get_target_count failing_aws ''mw-0004''
     = (0, [LogError ''Failed resolving target count for MW mw-0004''])
   \<and> mw_target_step failing_aws (failing_targets ! 0) (0, None) = Inr (2, None)"
proof -
  have a: "describe_maintenance_window_targets failing_aws ''mw-0bad'' = Inl ClientError"
    by (simp add: failing_aws_def)
  have b: "describe_maintenance_window_targets failing_aws ''mw-0004'' = Inr failing_targets
      \<and> failing_targets ! 1 \<in> set failing_targets
      \<and> tag_filters_of (Targets (failing_targets ! 1)) \<noteq> []
      \<and> Inl ClientError \<in> set (describe_instances failing_aws
            (tag_filters_of (Targets (failing_targets ! 1))))"
    by code_simp
  have c: "mw_target_step failing_aws (failing_targets ! 0) (0, None) = Inr (2, None)"
    by code_simp
  show ?thesis
    using get_target_count_failure_zero [of failing_aws "''mw-0bad''" ClientError]
      get_target_count_failure_zero [of failing_aws "''mw-0004''" ClientError failing_targets
        "failing_targets ! 1"] a b c
    by simp
qed

text \<open>
  Claim C9: permuting the rules inside each MW target of a window does not change the value
  of \<^verbatim>\<open>get_target_count\<close>, provided the instance lookup of the environment does not
  depend on the order of the filters it is given (the tag filters reach it in rule order).
\<close>

theorem get_target_count_rule_order:
  assumes "\<forall>fs fs'. mset fs = mset fs' \<longrightarrow> describe_instances aws fs = describe_instances aws fs'"
    and "describe_maintenance_window_targets aws w = Inr ts"
    and "list_all2 (\<lambda>t t'. mset (Targets t) = mset (Targets t')) ts ts'"
  shows "get_target_count (aws\<lparr>describe_maintenance_window_targets := (\<lambda>_. Inr ts')\<rparr>) w
         = get_target_count aws w"
proof -
  have m: "map (target_result aws) ts' = map (target_result aws) ts"
    using map_target_result_perm[OF assms(1,3)] by (rule sym)
  have "get_target_count_try (aws\<lparr>describe_maintenance_window_targets := (\<lambda>_. Inr ts')\<rparr>) w
        = get_target_count_try aws w"
    unfolding get_target_count_try_eq target_result_targets_update
    by (simp add: assms(2) m)
  then show ?thesis
    by (simp only: get_target_count_def)
qed


theorem get_target_count_rule_order_witness:
  "get_target_count
     (two_aws\<lparr>describe_maintenance_window_targets := (\<lambda>_. Inr two_targets_permuted)\<rparr>) ''mw-0003''
     = get_target_count two_aws ''mw-0003''
   \<and> get_target_count two_aws ''mw-0003'' = (4, [])"
proof -
  have i: "\<forall>fs fs'. mset fs = mset fs' \<longrightarrow>
      describe_instances two_aws fs = describe_instances two_aws fs'"
  proof (intro allI impI)
    fix fs fs' :: "tag_filter list"
    assume "mset fs = mset fs'"
    then have "set fs = set fs'" by (rule mset_eq_setD)
    then show "describe_instances two_aws fs = describe_instances two_aws fs'"
      by (simp add: two_aws_def)
  qed
  have d: "describe_maintenance_window_targets two_aws ''mw-0003'' = Inr two_targets"
    by (simp add: two_aws_def)
  have p: "list_all2 (\<lambda>t t'. mset (Targets t) = mset (Targets t')) two_targets two_targets_permuted"
    by (simp add: two_targets_def two_targets_permuted_def)
  have v: "get_target_count two_aws ''mw-0003'' = (4, [])"
    by code_simp
  show ?thesis
    using get_target_count_rule_order [OF i d p] v by simp
qed

section \<open>Properties of the Execution Status Resolver\<close>

subsection \<open>Loops, tallies and the choice of the execution\<close>

lemma tally_status_success:
  "counts_as_success r \<Longrightarrow> tally_status r (s, f) = (s + 1, f)"
  by (simp add: tally_status_def counts_as_success_def)

lemma tally_status_failure:
  "counts_as_failure r \<Longrightarrow> tally_status r (s, f) = (s, f + 1)"
  by (auto simp add: tally_status_def counts_as_failure_def)

lemma tally_status_other:
  "\<not> counts_as_success r \<Longrightarrow> \<not> counts_as_failure r \<Longrightarrow> tally_status r (s, f) = (s, f)"
  by (auto simp add: tally_status_def counts_as_failure_def counts_as_success_def split: option.splits)

lemma success_not_failure: "counts_as_success r \<Longrightarrow> \<not> counts_as_failure r"
  by (auto simp: counts_as_success_def counts_as_failure_def)

lemma fold_tally_status:
  "fold tally_status rs (s, f) =
     (s + int (length (filter counts_as_success rs)), f + int (length (filter counts_as_failure rs)))"
proof (induction rs arbitrary: s f)
  case Nil
  show ?case by simp
next
  case (Cons r rs)
  consider (a) "counts_as_success r" | (b) "counts_as_failure r"
    | (c) "\<not> counts_as_success r" "\<not> counts_as_failure r" by blast
  then show ?case
  proof cases
    case a
    then show ?thesis using Cons.IH success_not_failure[OF a] by (simp add: tally_status_success)
  next
    case b
    then show ?thesis using Cons.IH success_not_failure[of r] by (auto simp add: tally_status_failure)
  next
    case c
    then show ?thesis using Cons.IH by (simp add: tally_status_other)
  qed
qed

lemma find_filter:
  "find P xs = (case filter P xs of [] \<Rightarrow> None | y # _ \<Rightarrow> Some y)"
  by (induction xs) auto

lemma sort_head_latest:
  assumes "sort_key (\<lambda>x. - StartTime x) executions = latest # rest"
  shows "latest_execution executions = Some latest"
proof -
  let ?f = "\<lambda>x::execution. - StartTime x"
  have mem: "latest \<in> set executions"
    using assms by (metis list.set_intros(1) set_sort)
  have "sorted (map ?f (latest # rest))"
    using assms by (metis sorted_sort_key)
  then have "\<forall>y\<in>set rest. ?f latest \<le> ?f y" by simp
  moreover have "set executions = insert latest (set rest)"
    using assms by (metis list.simps(15) set_sort)
  ultimately have mx: "\<forall>y\<in>set executions. StartTime y \<le> StartTime latest" by auto
  have "filter (\<lambda>y. ?f y = ?f latest) (sort_key ?f executions) = filter (\<lambda>y. ?f y = ?f latest) executions"
    by (rule sort_key_stable)
  then have st: "filter (\<lambda>y. ?f y = ?f latest) executions
      = latest # filter (\<lambda>y. ?f y = ?f latest) rest"
    using assms by simp
  have "filter (\<lambda>x. list_all (\<lambda>y. StartTime y \<le> StartTime x) executions) executions
      = filter (\<lambda>y. ?f y = ?f latest) executions"
  proof (rule filter_cong[OF refl])
    fix x assume x: "x \<in> set executions"
    show "list_all (\<lambda>y. StartTime y \<le> StartTime x) executions = (?f x = ?f latest)"
    proof
      assume "list_all (\<lambda>y. StartTime y \<le> StartTime x) executions"
      then have "StartTime latest \<le> StartTime x" using mem by (simp add: list_all_iff)
      moreover have "StartTime x \<le> StartTime latest" using mx x by blast
      ultimately show "?f x = ?f latest" by simp
    next
      assume "?f x = ?f latest"
      then show "list_all (\<lambda>y. StartTime y \<le> StartTime x) executions"
        using mx by (simp add: list_all_iff)
    qed
  qed
  with st show ?thesis
    by (simp add: latest_execution_def find_filter)
qed

lemma sort_key_nonempty: "xs \<noteq> [] \<Longrightarrow> \<exists>y ys. sort_key f xs = y # ys"
  by (metis length_0_conv length_sort list.exhaust)







lemma for_each_tally:
  assumes "\<And>x sf sf'. body x sf = Inr sf' \<Longrightarrow> sf' = fold tally_status (res x) sf"
    and "for_each body xs sf = Inr sf'"
  shows "sf' = fold tally_status (concat (map res xs)) sf"
  using assms(2)
proof (induction xs arbitrary: sf)
  case Nil
  then show ?case by simp
next
  case (Cons x xs)
  from Cons.prems obtain t where t: "body x sf = Inr t" and r: "for_each body xs t = Inr sf'"
    by (auto split: sum.splits)
  from assms(1)[OF t] have "t = fold tally_status (res x) sf" .
  with Cons.IH[OF r] show ?case by simp
qed

lemma paginate_each_Inr:
  assumes "paginate_each body pgs s = Inr s'"
  shows "for_each body (pages_of pgs) s = Inr s'"
  using assms unfolding paginate_each_def
proof (induction pgs arbitrary: s)
  case Nil
  then show ?case by (simp add: pages_of_def)
next
  case (Cons fetch pgs)
  show ?case
  proof (cases fetch)
    case (Inl e)
    with Cons.prems show ?thesis by simp
  next
    case (Inr page)
    with Cons.prems obtain t where t: "body page s = Inr t"
      and r: "for_each (\<lambda>fetch s. case fetch of Inl e \<Rightarrow> Inl e | Inr page \<Rightarrow> body page s) pgs t = Inr s'"
      by (auto split: sum.splits)
    have "pages_of (fetch # pgs) = page # pages_of pgs"
      using Inr by (simp add: pages_of_def)
    with t Cons.IH[OF r] show ?thesis by simp
  qed
qed

lemma command_pages_results:
  assumes "paginate_each (\<lambda>cmd_page sf'. Inr (fold tally_status cmd_page sf')) pgs sf = Inr sf'"
  shows "sf' = fold tally_status (concat (pages_of pgs)) sf"
proof -
  have "for_each (\<lambda>cmd_page sf'. Inr (fold tally_status cmd_page sf')) (pages_of pgs) sf = Inr sf'"
    using assms by (rule paginate_each_Inr)
  then have "sf' = fold tally_status (concat (map (\<lambda>p. p) (pages_of pgs))) sf"
    by (rule for_each_tally[rotated]) simp
  then show ?thesis by simp
qed

lemma invocation_step_results:
  assumes "invocation_step loads ssm ivc sf = Inr sf'"
  shows "sf' = fold tally_status (invocation_results loads ssm ivc) sf"
proof (cases "installs loads ivc")
  case False
  with assms have "sf' = sf"
    by (auto simp: invocation_step_def installs_def split: sum.splits if_splits)
  with False show ?thesis by (simp add: invocation_results_def)
next
  case True
  then obtain operation where o: "get_operation loads ivc = Inr operation"
    and i: "install_in operation = Inr True"
    by (auto simp: installs_def split: sum.splits)
  show ?thesis
  proof (cases "ExecutionId ivc")
    case None
    with assms o i True show ?thesis
      by (simp add: invocation_step_def invocation_results_def command_results_def)
  next
    case (Some command_id)
    show ?thesis
    proof (cases "command_id = []")
      case True
      with assms o i Some \<open>installs loads ivc\<close> show ?thesis
        by (simp add: invocation_step_def invocation_results_def command_results_def)
    next
      case False
      with assms o i Some have "paginate_each (\<lambda>cmd_page sf'. Inr (fold tally_status cmd_page sf'))
          (list_command_invocations ssm command_id) sf = Inr sf'"
        by (simp add: invocation_step_def)
      then have "sf' = fold tally_status (concat (pages_of (list_command_invocations ssm command_id))) sf"
        by (rule command_pages_results)
      with False Some True show ?thesis
        by (simp add: invocation_results_def command_results_def)
    qed
  qed
qed

lemma concat_map_pages:
  "concat (map (\<lambda>page. concat (map g page)) ps) = concat (map g (concat ps))"
  by (induction ps) simp_all

lemma task_step_results:
  assumes "task_step loads ssm eid tk sf = Inr sf'"
  shows "sf' = fold tally_status (task_results loads ssm eid tk) sf"
proof (cases "TaskArn tk = Some ''AWS-RunPatchBaseline''")
  case False
  with assms show ?thesis by (simp add: task_step_def task_results_def)
next
  case True
  let ?pgs = "describe_maintenance_window_execution_task_invocations ssm eid (TaskExecutionId tk)"
  from True assms have "paginate_each (\<lambda>invocations sf'. for_each (invocation_step loads ssm) invocations sf')
      ?pgs sf = Inr sf'"
    by (simp add: task_step_def)
  then have "for_each (\<lambda>invocations sf'. for_each (invocation_step loads ssm) invocations sf')
      (pages_of ?pgs) sf = Inr sf'"
    by (rule paginate_each_Inr)
  then have "sf' = fold tally_status
      (concat (map (\<lambda>page. concat (map (invocation_results loads ssm) page)) (pages_of ?pgs))) sf"
  proof (rule for_each_tally[rotated])
    fix page t t'
    assume "for_each (invocation_step loads ssm) page t = Inr t'"
    then show "t' = fold tally_status (concat (map (invocation_results loads ssm) page)) t"
      by (rule for_each_tally[rotated]) (rule invocation_step_results)
  qed
  moreover have "concat (map (\<lambda>page. concat (map (invocation_results loads ssm) page)) (pages_of ?pgs))
      = concat (map (invocation_results loads ssm) (concat (pages_of ?pgs)))"
    by (rule concat_map_pages)
  ultimately show ?thesis using True by (simp add: task_results_def)
qed

lemma tally_execution_results:
  assumes "tally_execution loads ssm eid = Inr sf"
  shows "sf = fold tally_status (execution_results loads ssm eid) (0, 0)"
proof -
  from assms obtain tasks where d: "describe_maintenance_window_execution_tasks ssm eid = Inr tasks"
    and f: "for_each (task_step loads ssm eid) tasks (0, 0) = Inr sf"
    by (auto simp: tally_execution_def split: sum.splits)
  from f have "sf = fold tally_status (concat (map (task_results loads ssm eid) tasks)) (0, 0)"
    by (rule for_each_tally[rotated]) (rule task_step_results)
  with d show ?thesis by (simp add: execution_results_def)
qed

lemma latest_execution_Nil: "latest_execution [] = None"
  by (simp add: latest_execution_def)

lemma get_patch_status_counts_try_results:
  assumes "get_patch_status_counts_try loads ssm w = Inr sf"
  shows "sf = fold tally_status (examined_results loads ssm w) (0, 0)"
proof (cases "startswith w ''mw-''")
  case False
  with assms show ?thesis
    by (simp add: get_patch_status_counts_try_def examined_results_def)
next
  case True
  with assms obtain executions where
    d: "describe_maintenance_window_executions ssm w 10 = Inr executions"
    by (auto simp: get_patch_status_counts_try_def split: sum.splits)
  show ?thesis
  proof (cases "executions = []")
    case e: True
    with assms True d show ?thesis
      by (simp add: get_patch_status_counts_try_def examined_results_def latest_execution_Nil)
  next
    case False
    then obtain latest rest where s: "sort_key (\<lambda>x. - StartTime x) executions = latest # rest"
      using sort_key_nonempty by blast
    then have l: "latest_execution executions = Some latest" by (rule sort_head_latest)
    from assms True d False s have "tally_execution loads ssm (WindowExecutionId latest) = Inr sf"
      by (simp add: get_patch_status_counts_try_def)
    then have "sf = fold tally_status (execution_results loads ssm (WindowExecutionId latest)) (0, 0)"
      by (rule tally_execution_results)
    with True d l show ?thesis by (simp add: examined_results_def)
  qed
qed

subsection \<open>Claims about \<^verbatim>\<open>get_patch_status_counts\<close>\<close>

text \<open>
  Claim C4: a window id that does not start with \<open>mw-\<close> gives (0, 0) at once and without
  error record; so does a well-formed id whose execution lookup (asked for at most 10
  executions) returns the empty list. When the lookup returns a non-empty list, what
  \<^verbatim>\<open>get_patch_status_counts\<close> returns is the tally of exactly one execution: the one with
  the maximum start time, the first such in input order.
\<close>

theorem get_patch_status_counts_latest_execution:
  "(\<not> startswith w ''mw-'' \<longrightarrow> get_patch_status_counts loads ssm w = (Some (0, 0), []))
   \<and> (startswith w ''mw-'' \<and> describe_maintenance_window_executions ssm w 10 = Inr []
        \<longrightarrow> get_patch_status_counts loads ssm w = (Some (0, 0), []))
   \<and> (startswith w ''mw-'' \<and> describe_maintenance_window_executions ssm w 10 = Inr executions
        \<and> executions \<noteq> []
        \<longrightarrow> (\<exists>latest. latest_execution executions = Some latest
              \<and> get_patch_status_counts loads ssm w
                  = (case tally_execution loads ssm (WindowExecutionId latest) of
                       Inr sf \<Rightarrow> (Some sf, [])
                     | Inl e \<Rightarrow>
                         (None,
                          [LogError
                            (''Unhandled exception while evaluating patch status for MaintenanceWindowId ''
                               @ w)]))))"
proof (intro conjI impI)
  assume "\<not> startswith w ''mw-''"
  then show "get_patch_status_counts loads ssm w = (Some (0, 0), [])"
    by (simp add: get_patch_status_counts_def get_patch_status_counts_try_def)
next
  assume "startswith w ''mw-'' \<and> describe_maintenance_window_executions ssm w 10 = Inr []"
  then show "get_patch_status_counts loads ssm w = (Some (0, 0), [])"
    by (simp add: get_patch_status_counts_def get_patch_status_counts_try_def)
next
  assume h: "startswith w ''mw-'' \<and> describe_maintenance_window_executions ssm w 10 = Inr executions
        \<and> executions \<noteq> []"
  then obtain latest rest where s: "sort_key (\<lambda>x. - StartTime x) executions = latest # rest"
    using sort_key_nonempty by blast
  then have "latest_execution executions = Some latest" by (rule sort_head_latest)
  moreover have "get_patch_status_counts_try loads ssm w
      = tally_execution loads ssm (WindowExecutionId latest)"
    using h s by (simp add: get_patch_status_counts_try_def)
  then have "get_patch_status_counts loads ssm w
      = (case tally_execution loads ssm (WindowExecutionId latest) of
           Inr sf \<Rightarrow> (Some sf, [])
         | Inl e \<Rightarrow>
             (None,
              [LogError
                (''Unhandled exception while evaluating patch status for MaintenanceWindowId ''
                   @ w)]))"
    by (simp add: get_patch_status_counts_def)
  ultimately show "\<exists>latest. latest_execution executions = Some latest
              \<and> get_patch_status_counts loads ssm w
                  = (case tally_execution loads ssm (WindowExecutionId latest) of
                       Inr sf \<Rightarrow> (Some sf, [])
                     | Inl e \<Rightarrow>
                         (None,
                          [LogError
                            (''Unhandled exception while evaluating patch status for MaintenanceWindowId ''
                               @ w)]))"
    by blast
qed

theorem get_patch_status_counts_latest_execution_witness:
  "get_patch_status_counts sample_loads sample_ssm ''0001'' = (Some (0, 0), [])
   \<and> get_patch_status_counts sample_loads sample_ssm ''mw-0new'' = (Some (0, 0), [])
   \<and> latest_execution sample_executions = Some \<lparr>WindowExecutionId = ''exec-new'', StartTime = 200\<rparr>
   \<and> tally_execution sample_loads sample_ssm ''exec-new'' = Inr (1, 1)
   \<and> tally_execution sample_loads sample_ssm ''exec-old'' = Inr (0, 2)
   \<and> get_patch_status_counts sample_loads sample_ssm ''mw-0001'' = (Some (1, 1), [])"
proof -
  have a: "\<not> startswith ''0001'' ''mw-''" by code_simp
  have b: "startswith ''mw-0new'' ''mw-''
      \<and> describe_maintenance_window_executions sample_ssm ''mw-0new'' 10 = Inr []"
    by code_simp
  have c: "startswith ''mw-0001'' ''mw-''
      \<and> describe_maintenance_window_executions sample_ssm ''mw-0001'' 10 = Inr sample_executions
      \<and> sample_executions \<noteq> []"
    by code_simp
  have d: "latest_execution sample_executions
      = Some \<lparr>WindowExecutionId = ''exec-new'', StartTime = 200\<rparr>"
    by code_simp
  have e: "tally_execution sample_loads sample_ssm ''exec-new'' = Inr (1, 1)"
    by code_simp
  have f: "tally_execution sample_loads sample_ssm ''exec-old'' = Inr (0, 2)"
    by code_simp
  show ?thesis
    using get_patch_status_counts_latest_execution [of "''0001''" sample_loads sample_ssm sample_executions]
      get_patch_status_counts_latest_execution [of "''mw-0new''" sample_loads sample_ssm sample_executions]
      get_patch_status_counts_latest_execution [of "''mw-0001''" sample_loads sample_ssm sample_executions] a b c d e f
    by auto
qed




text \<open>
  Claim C7: the status \<open>Success\<close> adds one to the success counter; each of \<open>Failed\<close>,
  \<open>TimedOut\<close>, \<open>Cancelled\<close>, \<open>ExecutionTimedOut\<close> adds one to the failure counter; any
  other status, or none, adds nothing. The two counters that \<^verbatim>\<open>get_patch_status_counts\<close>
  returns are the numbers of results of the two classes among the per-instance command
  results examined for the window, each result counted once; so both are non-negative.
\<close>

theorem tally_status_classification:
  "tally_status \<lparr>InstanceId = i, Status = Some ''Success''\<rparr> (s, f) = (s + 1, f)
   \<and> (st \<in> {''Failed'', ''TimedOut'', ''Cancelled'', ''ExecutionTimedOut''} \<longrightarrow>
        tally_status \<lparr>InstanceId = i, Status = Some st\<rparr> (s, f) = (s, f + 1))
   \<and> (x \<noteq> Some ''Success''
        \<and> x \<notin> Some ` {''Failed'', ''TimedOut'', ''Cancelled'', ''ExecutionTimedOut''} \<longrightarrow>
        tally_status \<lparr>InstanceId = i, Status = x\<rparr> (s, f) = (s, f))
   \<and> fold tally_status results (s, f)
        = (s + int (length (filter counts_as_success results)),
           f + int (length (filter counts_as_failure results)))
   \<and> (get_patch_status_counts loads ssm w = (Some (s', f'), records) \<longrightarrow>
        s' = int (length (filter counts_as_success (examined_results loads ssm w)))
        \<and> f' = int (length (filter counts_as_failure (examined_results loads ssm w)))
        \<and> 0 \<le> s' \<and> 0 \<le> f')"
proof (intro conjI impI)
  show "tally_status \<lparr>InstanceId = i, Status = Some ''Success''\<rparr> (s, f) = (s + 1, f)"
    by (simp add: tally_status_success counts_as_success_def)
next
  assume "st \<in> {''Failed'', ''TimedOut'', ''Cancelled'', ''ExecutionTimedOut''}"
  then show "tally_status \<lparr>InstanceId = i, Status = Some st\<rparr> (s, f) = (s, f + 1)"
    by (intro tally_status_failure) (simp add: counts_as_failure_def)
next
  assume "x \<noteq> Some ''Success''
        \<and> x \<notin> Some ` {''Failed'', ''TimedOut'', ''Cancelled'', ''ExecutionTimedOut''}"
  then show "tally_status \<lparr>InstanceId = i, Status = x\<rparr> (s, f) = (s, f)"
    by (intro tally_status_other) (simp_all add: counts_as_failure_def counts_as_success_def)
next
  show "fold tally_status results (s, f)
        = (s + int (length (filter counts_as_success results)),
           f + int (length (filter counts_as_failure results)))"
    by (rule fold_tally_status)
next
  assume "get_patch_status_counts loads ssm w = (Some (s', f'), records)"
  then have "get_patch_status_counts_try loads ssm w = Inr (s', f')"
    by (auto simp: get_patch_status_counts_def split: sum.splits)
  then have "(s', f') = fold tally_status (examined_results loads ssm w) (0, 0)"
    by (rule get_patch_status_counts_try_results)
  then have e: "s' = int (length (filter counts_as_success (examined_results loads ssm w)))
      \<and> f' = int (length (filter counts_as_failure (examined_results loads ssm w)))"
    by (simp add: fold_tally_status)
  from e show "s' = int (length (filter counts_as_success (examined_results loads ssm w)))" by simp
  from e show "f' = int (length (filter counts_as_failure (examined_results loads ssm w)))" by simp
  from e show "0 \<le> s'" by simp
  from e show "0 \<le> f'" by simp
qed

theorem tally_status_classification_witness:
  "tally_status \<lparr>InstanceId = Some ''i-2'', Status = Some ''Cancelled''\<rparr> (4, 9) = (4, 10)
   \<and> tally_status \<lparr>InstanceId = Some ''i-3'', Status = Some ''InProgress''\<rparr> (4, 9) = (4, 9)
   \<and> tally_status \<lparr>InstanceId = Some ''i-3'', Status = None\<rparr> (4, 9) = (4, 9)
   \<and> get_patch_status_counts sample_loads sample_ssm ''mw-0001'' = (Some (1, 1), [])
   \<and> examined_results sample_loads sample_ssm ''mw-0001''
       = [\<lparr>InstanceId = Some ''i-1'', Status = Some ''Success''\<rparr>,
          \<lparr>InstanceId = Some ''i-2'', Status = Some ''Failed''\<rparr>,
          \<lparr>InstanceId = Some ''i-3'', Status = Some ''InProgress''\<rparr>]
   \<and> int (length (filter counts_as_success (examined_results sample_loads sample_ssm ''mw-0001''))) = 1
   \<and> int (length (filter counts_as_failure (examined_results sample_loads sample_ssm ''mw-0001''))) = 1"
proof -
  have a: "''Cancelled'' \<in> {''Failed'', ''TimedOut'', ''Cancelled'', ''ExecutionTimedOut''}"
    by simp
  have b: "Some ''InProgress'' \<noteq> Some ''Success''
      \<and> Some ''InProgress'' \<notin> Some ` {''Failed'', ''TimedOut'', ''Cancelled'', ''ExecutionTimedOut''}"
    by simp
  have c: "None \<noteq> Some ''Success''
      \<and> None \<notin> Some ` {''Failed'', ''TimedOut'', ''Cancelled'', ''ExecutionTimedOut''}"
    by simp
  have d: "get_patch_status_counts sample_loads sample_ssm ''mw-0001'' = (Some (1, 1), [])"
    by code_simp
  have e: "examined_results sample_loads sample_ssm ''mw-0001''
       = [\<lparr>InstanceId = Some ''i-1'', Status = Some ''Success''\<rparr>,
          \<lparr>InstanceId = Some ''i-2'', Status = Some ''Failed''\<rparr>,
          \<lparr>InstanceId = Some ''i-3'', Status = Some ''InProgress''\<rparr>]"
    by code_simp
  show ?thesis
    using tally_status_classification [of "Some ''i-2''" 4 9 "''Cancelled''" None "[]" sample_loads sample_ssm "''mw-0001''" 1 1 "[]"]
      tally_status_classification [of "Some ''i-3''" 4 9 "''''" "Some ''InProgress''" "[]" sample_loads sample_ssm "''mw-0001''" 1 1 "[]"]
      tally_status_classification [of "Some ''i-3''" 4 9 "''''" None "[]" sample_loads sample_ssm "''mw-0001''" 1 1 "[]"]
      a b c d e
    by simp
qed

section \<open>Properties of the post-patch loop\<close>

subsection \<open>The session cache\<close>

lemma cache_step_effect:
  assumes "cache_step assume_role row st = Inr st'"
  shows "caches st' (account_context row)
       \<and> assume_role_calls st'
           = assume_role_calls st @ (if caches st (account_context row) then [] else [account_context row])
       \<and> post_patch_rows st' = post_patch_rows st"
proof (cases "caches st (account_context row)")
  case True
  then have "cache_step assume_role row st = Inr st"
    by (auto simp: cache_step_def caches_def account_context_def)
  with assms True show ?thesis by simp
next
  case False
  then have miss: "Option.is_none (cached_session st) \<or> Some (AccountId row) \<noteq> cached_account_id st
         \<or> Some (RoleName row) \<noteq> cached_role_name st \<or> Some (Region row) \<noteq> cached_region st"
    by (auto simp: caches_def account_context_def)
  have "\<exists>session. st' = st\<lparr>cached_session := Some session,
              cached_account_id := Some (AccountId row),
              cached_role_name := Some (RoleName row),
              cached_region := Some (Region row),
              assume_role_calls := assume_role_calls st @ [(AccountId row, RoleName row, Region row)]\<rparr>"
    using assms miss unfolding cache_step_def by (auto split: sum.splits)
  with False show ?thesis by (auto simp add: caches_def account_context_def)
qed

lemma post_row_step_effect:
  assumes "post_row_step loads assume_role row st = Inr st'"
  shows "caches st' (account_context row)
       \<and> assume_role_calls st'
           = assume_role_calls st @ (if caches st (account_context row) then [] else [account_context row])
       \<and> length (post_patch_rows st') = Suc (length (post_patch_rows st))"
proof -
  from assms obtain st1 where c: "cache_step assume_role row st = Inr st1"
    by (auto simp: post_row_step_def split: sum.splits)
  with assms obtain rows' records where
    st': "st' = st1\<lparr>post_patch_rows := post_patch_rows st1 @ [rows'], logged := logged st1 @ records\<rparr>"
    by (auto simp: post_row_step_def split: sum.splits option.splits prod.splits)
  from cache_step_effect[OF c] st' show ?thesis by (simp add: caches_def)
qed

lemma remdups_adj_head: "remdups_adj (x # xs) = x # tl (remdups_adj (x # xs))"
  by (cases xs) auto

lemma post_loop_cached:
  assumes "for_each (post_row_step loads assume_role) rows st = Inr st'" and "caches st c"
  shows "assume_role_calls st' = assume_role_calls st @ tl (remdups_adj (c # map account_context rows))
       \<and> length (post_patch_rows st') = length (post_patch_rows st) + length rows"
  using assms
proof (induction rows arbitrary: st c)
  case Nil
  then show ?case by simp
next
  case (Cons row rows)
  from Cons.prems(1) obtain st1 where
    s1: "post_row_step loads assume_role row st = Inr st1"
    and r: "for_each (post_row_step loads assume_role) rows st1 = Inr st'"
    by (auto split: sum.splits)
  note e = post_row_step_effect[OF s1]
  from e have c1: "caches st1 (account_context row)" by simp
  note ih = Cons.IH[OF r c1]
  show ?case
  proof (cases "c = account_context row")
    case True
    with Cons.prems(2) e have "assume_role_calls st1 = assume_role_calls st" by simp
    with ih e True show ?thesis by simp
  next
    case False
    have "\<not> caches st (account_context row)"
      using False Cons.prems(2) by (auto simp: caches_def prod_eq_iff)
    with e have "assume_role_calls st1 = assume_role_calls st @ [account_context row]" by simp
    with ih e False show ?thesis
      using remdups_adj_head[of "account_context row" "map account_context rows"] by simp
  qed
qed

lemma post_loop_initial:
  assumes "for_each (post_row_step loads assume_role) rows st = Inr st'" and "Option.is_none (cached_session st)"
  shows "assume_role_calls st' = assume_role_calls st @ remdups_adj (map account_context rows)
       \<and> length (post_patch_rows st') = length (post_patch_rows st) + length rows"
proof (cases rows)
  case Nil
  with assms show ?thesis by simp
next
  case (Cons row rest)
  with assms(1) obtain st1 where
    s1: "post_row_step loads assume_role row st = Inr st1"
    and r: "for_each (post_row_step loads assume_role) rest st1 = Inr st'"
    by (auto split: sum.splits)
  note e = post_row_step_effect[OF s1]
  have "\<not> caches st (account_context row)" using assms(2) by (simp add: caches_def)
  with e have a: "assume_role_calls st1 = assume_role_calls st @ [account_context row]" by simp
  from e have c1: "caches st1 (account_context row)" by simp
  from post_loop_cached[OF r c1] a e Cons show ?thesis
    using remdups_adj_head[of "account_context row" "map account_context rest"] by simp
qed


lemma cache_step_sound:
  assumes "cache_step assume_role row st = Inr st1" and "cache_sound assume_role st"
  shows "\<exists>session. cached_session st1 = Some session
       \<and> assume_role (AccountId row) (RoleName row) (Region row) = Inr session
       \<and> cache_sound assume_role st1 \<and> post_patch_rows st1 = post_patch_rows st
       \<and> logged st1 = logged st"
proof (cases "caches st (account_context row)")
  case True
  then have same: "cache_step assume_role row st = Inr st"
    by (auto simp: cache_step_def caches_def account_context_def)
  from True obtain session where s: "cached_session st = Some session"
    by (auto simp: caches_def Option.is_none_def)
  with True assms(2) have "assume_role (AccountId row) (RoleName row) (Region row) = Inr session"
    by (auto simp add: cache_sound_def caches_def account_context_def split: option.splits)
  with same assms s show ?thesis by simp
next
  case False
  then have miss: "Option.is_none (cached_session st) \<or> Some (AccountId row) \<noteq> cached_account_id st
         \<or> Some (RoleName row) \<noteq> cached_role_name st \<or> Some (Region row) \<noteq> cached_region st"
    by (auto simp: caches_def account_context_def)
  have "\<exists>session. assume_role (AccountId row) (RoleName row) (Region row) = Inr session
      \<and> st1 = st\<lparr>cached_session := Some session,
              cached_account_id := Some (AccountId row),
              cached_role_name := Some (RoleName row),
              cached_region := Some (Region row),
              assume_role_calls := assume_role_calls st @ [(AccountId row, RoleName row, Region row)]\<rparr>"
    using assms(1) miss unfolding cache_step_def by (auto split: sum.splits)
  then show ?thesis by (auto simp: cache_sound_def split: option.splits)
qed

lemma post_row_step_served:
  assumes "post_row_step loads assume_role row st = Inr st'" and "cache_sound assume_role st"
  shows "\<exists>out. post_patch_rows st' = post_patch_rows st @ [out]
       \<and> served loads assume_role row out \<and> cache_sound assume_role st'"
proof -
  from assms(1) obtain st1 where c: "cache_step assume_role row st = Inr st1"
    by (auto simp: post_row_step_def split: sum.splits)
  from cache_step_sound[OF c assms(2)] obtain session where
    s: "cached_session st1 = Some session"
    and a: "assume_role (AccountId row) (RoleName row) (Region row) = Inr session"
    and snd: "cache_sound assume_role st1"
    and rows: "post_patch_rows st1 = post_patch_rows st"
    by blast
  from assms(1) c s obtain success failure records where
    g: "get_patch_status_counts loads session (MaintenanceWindowId row) = (Some (success, failure), records)"
    and st': "st' = st1\<lparr>post_patch_rows := post_patch_rows st1 @
                 [patch_row.extend row \<lparr>Success = success, Failure = failure\<rparr>],
               logged := logged st1 @ records\<rparr>"
    by (auto simp: post_row_step_def split: sum.splits option.splits prod.splits)
  have "served loads assume_role row (patch_row.extend row \<lparr>Success = success, Failure = failure\<rparr>)"
    using a g by (simp add: served_def)
  moreover have "cache_sound assume_role st'"
    using snd st' by (simp add: cache_sound_def split: option.splits)
  ultimately show ?thesis using st' rows by simp
qed

lemma post_loop_served:
  assumes "for_each (post_row_step loads assume_role) rows st = Inr st'"
    and "cache_sound assume_role st"
  shows "\<exists>outs. post_patch_rows st' = post_patch_rows st @ outs
       \<and> list_all2 (served loads assume_role) rows outs"
  using assms
proof (induction rows arbitrary: st)
  case Nil
  then show ?case by simp
next
  case (Cons row rows)
  from Cons.prems(1) obtain st1 where
    s1: "post_row_step loads assume_role row st = Inr st1"
    and r: "for_each (post_row_step loads assume_role) rows st1 = Inr st'"
    by (auto split: sum.splits)
  from post_row_step_served[OF s1 Cons.prems(2)] obtain out where
    o: "post_patch_rows st1 = post_patch_rows st @ [out]"
    and sv: "served loads assume_role row out" and cs: "cache_sound assume_role st1"
    by blast
  from Cons.IH[OF r cs] obtain outs where
    "post_patch_rows st' = post_patch_rows st1 @ outs"
    and "list_all2 (served loads assume_role) rows outs"
    by blast
  with o sv have "post_patch_rows st' = post_patch_rows st @ (out # outs)
      \<and> list_all2 (served loads assume_role) (row # rows) (out # outs)"
    by simp
  then show ?case by blast
qed

lemma post_row_step_hit:
  assumes "caches st (account_context row)" and "cached_session st = Some session"
  shows "post_row_step loads assume_role row st =
     (case get_patch_status_counts loads session (MaintenanceWindowId row) of
        (None, records) \<Rightarrow> Inl TypeError
      | (Some (success, failure), records) \<Rightarrow>
          Inr (st\<lparr>post_patch_rows := post_patch_rows st @
                     [patch_row.extend row \<lparr>Success = success, Failure = failure\<rparr>],
                  logged := logged st @ records\<rparr>))"
proof -
  have "cache_step assume_role row st = Inr st"
    using assms(1) by (auto simp: cache_step_def caches_def account_context_def)
  with assms(2) show ?thesis by (simp add: post_row_step_def)
qed

text \<open>
  Claim C8: when the post-patch loop processes all the rows, the calls it made to
  \<^verbatim>\<open>assume_role\<close> are, in order, the account contexts of the rows with every maximal
  run of equal consecutive contexts collapsed to one: one call per run, none inside a
  run. Every report row carries the counters obtained with the session of its own account
  context. On a row whose context is the cached one the provider is not called: the row
  is served by the cached session. For the contexts A, A, B, A that is 3 calls.
\<close>

theorem post_patch_loop_assume_role_runs:
  assumes "post_patch_loop loads assume_role rows = Inr st"
  shows "assume_role_calls st = remdups_adj (map account_context rows)
       \<and> length (post_patch_rows st) = length rows
       \<and> list_all2 (served loads assume_role) rows (post_patch_rows st)
       \<and> (caches st0 (account_context row) \<and> cached_session st0 = Some session \<longrightarrow>
            post_row_step loads assume_role row st0 =
              (case get_patch_status_counts loads session (MaintenanceWindowId row) of
                 (None, records) \<Rightarrow> Inl TypeError
               | (Some (success, failure), records) \<Rightarrow>
                   Inr (st0\<lparr>post_patch_rows := post_patch_rows st0 @
                              [patch_row.extend row \<lparr>Success = success, Failure = failure\<rparr>],
                           logged := logged st0 @ records\<rparr>)))"
proof -
  have f: "for_each (post_row_step loads assume_role) rows initial_post_state = Inr st"
    using assms by (simp add: post_patch_loop_def)
  have n: "Option.is_none (cached_session initial_post_state)"
    by (simp add: initial_post_state_def)
  have "assume_role_calls st
        = assume_role_calls initial_post_state @ remdups_adj (map account_context rows)
      \<and> length (post_patch_rows st) = length (post_patch_rows initial_post_state) + length rows"
    using f n by (rule post_loop_initial)
  then have a: "assume_role_calls st = remdups_adj (map account_context rows)
      \<and> length (post_patch_rows st) = length rows"
    by (simp add: initial_post_state_def)
  have "cache_sound assume_role initial_post_state"
    by (simp add: cache_sound_def initial_post_state_def)
  with f obtain outs where "post_patch_rows st = post_patch_rows initial_post_state @ outs"
    and "list_all2 (served loads assume_role) rows outs"
    using post_loop_served by blast
  then have b: "list_all2 (served loads assume_role) rows (post_patch_rows st)"
    by (simp add: initial_post_state_def)
  have c: "caches st0 (account_context row) \<and> cached_session st0 = Some session \<longrightarrow>
            post_row_step loads assume_role row st0 =
              (case get_patch_status_counts loads session (MaintenanceWindowId row) of
                 (None, records) \<Rightarrow> Inl TypeError
               | (Some (success, failure), records) \<Rightarrow>
                   Inr (st0\<lparr>post_patch_rows := post_patch_rows st0 @
                              [patch_row.extend row \<lparr>Success = success, Failure = failure\<rparr>],
                           logged := logged st0 @ records\<rparr>))"
    using post_row_step_hit by blast
  from a b c show ?thesis by blast
qed

theorem post_patch_loop_assume_role_runs_witness:
  "\<not> isl (post_patch_loop sample_loads split_provider abba_rows)
   \<and> assume_role_calls (projr (post_patch_loop sample_loads split_provider abba_rows))
       = remdups_adj (map account_context abba_rows)
   \<and> remdups_adj (map account_context abba_rows)
       = [(''111111111111'', ''PatchReader'', ''us-east-1''),
          (''222222222222'', ''PatchReader'', ''us-east-1''),
          (''111111111111'', ''PatchReader'', ''us-east-1'')]
   \<and> map AccountId abba_rows
       = [''111111111111'', ''111111111111'', ''222222222222'', ''111111111111'']
   \<and> list_all2 (served sample_loads split_provider) abba_rows
        (post_patch_rows (projr (post_patch_loop sample_loads split_provider abba_rows)))
   \<and> map (\<lambda>r. (AccountId r, MaintenanceWindowId r, Success r, Failure r))
        (post_patch_rows (projr (post_patch_loop sample_loads split_provider abba_rows)))
       = [(''111111111111'', ''mw-0001'', 1, 1), (''111111111111'', ''mw-0new'', 0, 0),
          (''222222222222'', ''mw-0001'', 4, 0), (''111111111111'', ''mw-0002'', 1, 1)]
   \<and> \<not> isl (post_row_step sample_loads failing_provider (abba_rows ! 1) warm_state)
   \<and> map (\<lambda>r. (AccountId r, MaintenanceWindowId r, Success r, Failure r))
        (post_patch_rows (projr (post_row_step sample_loads failing_provider (abba_rows ! 1) warm_state)))
       = [(''111111111111'', ''mw-0new'', 0, 0)]"
proof -
  have r: "\<not> isl (post_patch_loop sample_loads split_provider abba_rows)"
    by code_simp
  then obtain st where s: "post_patch_loop sample_loads split_provider abba_rows = Inr st"
    by (cases "post_patch_loop sample_loads split_provider abba_rows") simp_all
  have a: "remdups_adj (map account_context abba_rows)
       = [(''111111111111'', ''PatchReader'', ''us-east-1''),
          (''222222222222'', ''PatchReader'', ''us-east-1''),
          (''111111111111'', ''PatchReader'', ''us-east-1'')]"
    by code_simp
  have b: "map AccountId abba_rows
      = [''111111111111'', ''111111111111'', ''222222222222'', ''111111111111'']"
    by code_simp
  have c: "map (\<lambda>r. (AccountId r, MaintenanceWindowId r, Success r, Failure r))
        (post_patch_rows (projr (post_patch_loop sample_loads split_provider abba_rows)))
       = [(''111111111111'', ''mw-0001'', 1, 1), (''111111111111'', ''mw-0new'', 0, 0),
          (''222222222222'', ''mw-0001'', 4, 0), (''111111111111'', ''mw-0002'', 1, 1)]"
    by code_simp
  have e: "post_patch_loop sample_loads failing_provider [] = Inr initial_post_state"
    by (simp add: post_patch_loop_def)
  have h: "caches warm_state (account_context (abba_rows ! 1))
      \<and> cached_session warm_state = Some sample_ssm"
    by (simp add: warm_state_def caches_def account_context_def abba_rows_def sample_row_def)
  have g: "get_patch_status_counts sample_loads sample_ssm (MaintenanceWindowId (abba_rows ! 1))
      = (Some (0, 0), [])"
    by code_simp
  have k: "map (\<lambda>r. (AccountId r, MaintenanceWindowId r, Success r, Failure r))
        [patch_row.extend (abba_rows ! 1) \<lparr>Success = 0, Failure = 0\<rparr>]
       = [(''111111111111'', ''mw-0new'', 0, 0)]"
    by code_simp
  have w: "post_patch_rows warm_state = []" by (simp add: warm_state_def)
  show ?thesis
    using post_patch_loop_assume_role_runs [OF s, of initial_post_state "abba_rows ! 0" sample_ssm]
      post_patch_loop_assume_role_runs [OF e, of warm_state "abba_rows ! 1" sample_ssm] s a b c h g k w by simp
qed

text \<open>
  Claim C3 fails on the code. When a lookup inside \<^verbatim>\<open>get_patch_status_counts\<close> raises,
  the handler of line 521 logs and the function returns \<^verbatim>\<open>None\<close>; line 735 of the
  caller unpacks that result into two names, which raises \<^verbatim>\<open>TypeError\<close>, and the handler
  of line 794 ends the run with \<^verbatim>\<open>sys.exit(1)\<close>. The loop does not go on to the remaining
  rows: for a failing row followed by a healthy row the outcome is exit status 1 and no
  row is delivered, while the healthy row alone is delivered with its counts.
\<close>

theorem post_patch_function_aborts_on_failed_status:
  "get_patch_status_counts sample_loads sample_ssm ''mw-0bad''
     = (None, [LogError
         ''Unhandled exception while evaluating patch status for MaintenanceWindowId mw-0bad''])
   \<and> post_patch_function sample_loads sample_provider (\<lambda>_. Inr ()) bad_then_good_rows = Exit 1
   \<and> post_patch_function sample_loads sample_provider (\<lambda>_. Inr ()) (tl bad_then_good_rows)
     = Delivered [patch_row.extend (sample_row ''111111111111'' ''mw-0001'')
                    \<lparr>Success = 1, Failure = 1\<rparr>]"
  by code_simp


section \<open>Properties of the pre-patch scan\<close>

lemma not_startswith_empty: "\<not> startswith [] ''mmpatching''"
  by (simp add: startswith_def)

lemma window_step_eq:
  "window_step fromiso now_utc aws acct mw st =
     Inr (if reported fromiso now_utc mw
          then st\<lparr>output_rows := output_rows st @ [report_row aws acct mw],
                  target_lookups := target_lookups st @ [WindowId mw],
                  scan_logged := scan_logged st @ snd (get_target_count aws (WindowId mw))\<rparr>
          else st)"
proof (cases "Name mw")
  case None
  then have "\<not> startswith (window_name mw) ''mmpatching''"
    by (simp add: window_name_def not_startswith_empty)
  then show ?thesis
    by (simp add: window_step_def reported_def split: option.splits prod.splits)
next
  case (Some name)
  then show ?thesis
    by (simp add: window_step_def reported_def report_row_def window_name_def
          split: option.splits prod.splits)
qed

lemma scan_windows_eq:
  "scan_windows fromiso now_utc aws acct windows st =
     Inr (st\<lparr>output_rows := output_rows st
                  @ map (report_row aws acct) (filter (reported fromiso now_utc) windows),
             target_lookups := target_lookups st
                  @ map WindowId (filter (reported fromiso now_utc) windows),
             scan_logged := scan_logged st
                  @ concat (map (\<lambda>mw. snd (get_target_count aws (WindowId mw)))
                              (filter (reported fromiso now_utc) windows))\<rparr>)"
  unfolding scan_windows_def
proof (induction windows arbitrary: st)
  case Nil
  show ?case by simp
next
  case (Cons mw windows)
  have "for_each (window_step fromiso now_utc aws acct) (mw # windows) st
      = for_each (window_step fromiso now_utc aws acct) windows
          (if reported fromiso now_utc mw
           then st\<lparr>output_rows := output_rows st @ [report_row aws acct mw],
                   target_lookups := target_lookups st @ [WindowId mw],
                   scan_logged := scan_logged st @ snd (get_target_count aws (WindowId mw))\<rparr>
           else st)"
    by (simp add: window_step_eq)
  then show ?case by (simp add: Cons.IH)
qed


text \<open>
  Claim C10: a window without \<^verbatim>\<open>NextExecutionTime\<close>, a window whose name does not start
  with \<open>mmpatching\<close> and a window that \<^verbatim>\<open>runs_today\<close> rejects each leave the rows, the
  list of target-count lookups and the error records as they were. The rows of a scan are
  the rows of exactly the windows that meet all three conditions, in order, and
  \<^verbatim>\<open>get_target_count\<close> is called for exactly those windows.
\<close>

theorem scan_windows_reports_filtered:
  "(NextExecutionTime mw = None \<longrightarrow> window_step fromiso now_utc aws acct mw st = Inr st)
   \<and> (\<not> startswith (window_name mw) ''mmpatching'' \<longrightarrow>
        window_step fromiso now_utc aws acct mw st = Inr st)
   \<and> (NextExecutionTime mw = Some t \<and> \<not> runs_today fromiso now_utc t \<longrightarrow>
        window_step fromiso now_utc aws acct mw st = Inr st)
   \<and> (reported fromiso now_utc mw \<longleftrightarrow>
        (\<exists>t. NextExecutionTime mw = Some t \<and> runs_today fromiso now_utc t)
        \<and> startswith (window_name mw) ''mmpatching'')
   \<and> scan_windows fromiso now_utc aws acct windows st =
       Inr (st\<lparr>output_rows := output_rows st
                    @ map (report_row aws acct) (filter (reported fromiso now_utc) windows),
               target_lookups := target_lookups st
                    @ map WindowId (filter (reported fromiso now_utc) windows),
               scan_logged := scan_logged st
                    @ concat (map (\<lambda>mw. snd (get_target_count aws (WindowId mw)))
                                (filter (reported fromiso now_utc) windows))\<rparr>)"
proof (intro conjI impI)
  assume "NextExecutionTime mw = None"
  then show "window_step fromiso now_utc aws acct mw st = Inr st"
    by (simp add: window_step_eq reported_def)
next
  assume "\<not> startswith (window_name mw) ''mmpatching''"
  then show "window_step fromiso now_utc aws acct mw st = Inr st"
    by (simp add: window_step_eq reported_def split: option.splits)
next
  assume "NextExecutionTime mw = Some t \<and> \<not> runs_today fromiso now_utc t"
  then show "window_step fromiso now_utc aws acct mw st = Inr st"
    by (simp add: window_step_eq reported_def)
next
  show "reported fromiso now_utc mw \<longleftrightarrow>
        (\<exists>t. NextExecutionTime mw = Some t \<and> runs_today fromiso now_utc t)
        \<and> startswith (window_name mw) ''mmpatching''"
    by (auto simp: reported_def split: option.splits)
next
  show "scan_windows fromiso now_utc aws acct windows st =
       Inr (st\<lparr>output_rows := output_rows st
                    @ map (report_row aws acct) (filter (reported fromiso now_utc) windows),
               target_lookups := target_lookups st
                    @ map WindowId (filter (reported fromiso now_utc) windows),
               scan_logged := scan_logged st
                    @ concat (map (\<lambda>mw. snd (get_target_count aws (WindowId mw)))
                                (filter (reported fromiso now_utc) windows))\<rparr>)"
    by (rule scan_windows_eq)
qed

theorem scan_windows_reports_filtered_witness:
  "map (reported sample_fromiso sample_now) sample_windows = [False, False, False, True, False, False]
   \<and> map (\<lambda>mw. window_step sample_fromiso sample_now two_aws sample_account mw empty_scan = Inr empty_scan)
        sample_windows = [True, True, True, False, True, True]
   \<and> scan_windows sample_fromiso sample_now two_aws sample_account sample_windows empty_scan
     = Inr \<lparr>output_rows =
             [\<lparr>AccountId = ''111111111111'', Region = ''us-east-1'', RoleName = ''PatchReader'',
               MaintenanceWindowId = ''mw-0d'', MaintenanceWindowName = ''mmpatching-today'',
               TargetInstanceCount = 4\<rparr>],
            target_lookups = [''mw-0d''], scan_logged = []\<rparr>"
proof -
  have a: "map (reported sample_fromiso sample_now) sample_windows = [False, False, False, True, False, False]"
    by code_simp
  have b: "filter (reported sample_fromiso sample_now) sample_windows = [sample_windows ! 3]"
    by code_simp
  have c: "report_row two_aws sample_account (sample_windows ! 3) =
     \<lparr>AccountId = ''111111111111'', Region = ''us-east-1'', RoleName = ''PatchReader'',
               MaintenanceWindowId = ''mw-0d'', MaintenanceWindowName = ''mmpatching-today'',
               TargetInstanceCount = 4\<rparr>"
    by code_simp
  have d: "snd (get_target_count two_aws ''mw-0d'') = []
     \<and> WindowId (sample_windows ! 3) = ''mw-0d''"
    by code_simp
  have f: "NextExecutionTime (sample_windows ! 0) = None
     \<and> \<not> startswith (window_name (sample_windows ! 1)) ''mmpatching''
     \<and> NextExecutionTime (sample_windows ! 4) = Some (TimeStr ''soon'')
     \<and> \<not> runs_today sample_fromiso sample_now (TimeStr ''soon'')"
    by code_simp
  have e: "map (\<lambda>mw. window_step sample_fromiso sample_now two_aws sample_account mw empty_scan = Inr empty_scan)
        sample_windows = [True, True, True, False, True, True]"
    by code_simp
  show ?thesis
    using scan_windows_reports_filtered [of "sample_windows ! 0" sample_fromiso sample_now two_aws sample_account empty_scan
        "TimeStr ''soon''" sample_windows]
      scan_windows_reports_filtered [of "sample_windows ! 1" sample_fromiso sample_now two_aws sample_account empty_scan
        "TimeStr ''soon''" sample_windows]
      scan_windows_reports_filtered [of "sample_windows ! 4" sample_fromiso sample_now two_aws sample_account empty_scan
        "TimeStr ''soon''" sample_windows] a b c d e f
    by (simp add: empty_scan_def)
qed

end
